theory Spec2Isabelle
  imports Main "HOL-Library.Multiset" "HOL-Library.Signed_Division"
begin

section \<open>AutoSA hardware-module generation (autosa_codegen.cpp)\<close>

text \<open>
  The development embeds the parts of \<^verbatim>\<open>autosa_codegen.cpp\<close> that decide which
  hardware modules exist, how they are classified and in which order they are emitted.
  Schedule trees and polyhedral sets are values of the isl library; the embedding keeps
  the control flow of the C functions and the scalar fields of the C structs, and takes
  what isl computes as an argument of the function that uses it.
\<close>

subsection \<open>Enumerations and structs\<close>

datatype isl_bool = isl_bool_error | isl_bool_false | isl_bool_true

text \<open>The integer value of an \<^verbatim>\<open>isl_bool\<close>; a C condition holds when it is not zero.\<close>

fun isl_bool_val :: "isl_bool \<Rightarrow> int" where
  "isl_bool_val isl_bool_error = -1"
| "isl_bool_val isl_bool_false = 0"
| "isl_bool_val isl_bool_true = 1"

datatype autosa_group_type = AUTOSA_IO_GROUP | AUTOSA_PE_GROUP | AUTOSA_DRAIN_GROUP

datatype autosa_io_type = AUTOSA_INT_IO | AUTOSA_EXT_IO

datatype autosa_array_type = AUTOSA_EXT_ARRAY | AUTOSA_INT_ARRAY

datatype autosa_dep_type = AUTOSA_DEP_RAW | AUTOSA_DEP_RAR | AUTOSA_DEP_WAR | AUTOSA_DEP_WAW

datatype autosa_io_dir = IO_NULL | IO_IN | IO_OUT | IO_INOUT

datatype autosa_module_type = PE_MODULE | IO_MODULE | DRAIN_MODULE

type_synonym isl_vec = "int list"

text \<open>\<^verbatim>\<open>struct autosa_io_info\<close>: \<open>info_dep_type\<close> is \<^verbatim>\<open>io_info->dep->type\<close>.\<close>

record autosa_io_info =
  info_io_type :: autosa_io_type
  info_dir :: isl_vec
  info_dep_type :: autosa_dep_type

text \<open>\<^verbatim>\<open>struct autosa_stmt_access\<close>: \<^verbatim>\<open>n_io_info\<close> is the length of \<open>io_info\<close>.\<close>

record autosa_stmt_access =
  io_info :: "autosa_io_info list"

text \<open>\<^verbatim>\<open>struct autosa_array_tile\<close>: \<open>tile_bound\<close> holds \<^verbatim>\<open>bound[i].size\<close>.\<close>

record autosa_array_tile =
  tile_depth :: int
  tile_n :: int
  tile_bound :: "int list"

text \<open>\<^verbatim>\<open>struct autosa_io_buffer\<close>: a null \<^verbatim>\<open>tile\<close> pointer is \<open>None\<close>.\<close>

record autosa_io_buffer =
  buf_level :: int
  buf_n_lane :: int
  buf_tile :: "autosa_array_tile option"

text \<open>
  \<^verbatim>\<open>struct autosa_array_ref_group\<close>. \<open>array_type\<close> is
  \<^verbatim>\<open>group->local_array->array_type\<close>, \<open>n_io_group\<close> is
  \<^verbatim>\<open>group->local_array->n_io_group\<close> and \<open>array_name\<close> is
  \<^verbatim>\<open>group->array->name\<close>.
\<close>

record autosa_array_ref_group =
  array_name :: string
  grp_nr :: int
  group_type :: autosa_group_type
  io_type :: autosa_io_type
  grp_dir :: isl_vec
  array_type :: autosa_array_type
  n_io_group :: int
  refs :: "autosa_stmt_access list"
  grp_io_level :: int
  grp_space_dim :: int
  grp_n_lane :: int
  io_buffers :: "autosa_io_buffer list"
  array_io_dir :: autosa_io_dir
  pe_io_dir :: autosa_io_dir

subsection \<open>is_module_valid\<close>

text \<open>
  The two nested loops of \<^verbatim>\<open>is_module_valid\<close>. The \<^verbatim>\<open>break\<close> leaves the loop over
  the \<^verbatim>\<open>io_info\<close> entries of one reference only; the loop over the references goes on.
  \<open>isl_vec_cmp\<close> is the comparison of the isl library.
\<close>

fun scan_io_info ::
  "(isl_vec \<Rightarrow> isl_vec \<Rightarrow> int) \<Rightarrow> autosa_array_ref_group \<Rightarrow> autosa_io_info list \<Rightarrow> int \<Rightarrow> int"
where
  "scan_io_info isl_vec_cmp g [] external_group = external_group"
| "scan_io_info isl_vec_cmp g (info # rest) external_group =
     (if info_io_type info = io_type g \<and> \<not> (isl_vec_cmp (info_dir info) (grp_dir g) \<noteq> 0)
      then (if info_dep_type info \<noteq> AUTOSA_DEP_RAR then 0
            else scan_io_info isl_vec_cmp g rest external_group)
      else scan_io_info isl_vec_cmp g rest external_group)"

fun scan_refs ::
  "(isl_vec \<Rightarrow> isl_vec \<Rightarrow> int) \<Rightarrow> autosa_array_ref_group \<Rightarrow> autosa_stmt_access list \<Rightarrow> int \<Rightarrow> int"
where
  "scan_refs isl_vec_cmp g [] external_group = external_group"
| "scan_refs isl_vec_cmp g (ref # rest) external_group =
     scan_refs isl_vec_cmp g rest (scan_io_info isl_vec_cmp g (io_info ref) external_group)"

text \<open>
  \<open>overlap\<close> is \<^verbatim>\<open>internal_group_in_out_overlap(node, kernel, group, read)\<close> as a function
  of \<open>read\<close>.
\<close>

definition is_module_valid ::
  "(isl_vec \<Rightarrow> isl_vec \<Rightarrow> int) \<Rightarrow> (bool \<Rightarrow> isl_bool) \<Rightarrow> autosa_array_ref_group \<Rightarrow> bool \<Rightarrow> isl_bool"
where
  "is_module_valid isl_vec_cmp overlap g read =
     (if group_type g = AUTOSA_PE_GROUP then isl_bool_true
      else
        let external_group = scan_refs isl_vec_cmp g (refs g) 1 in
        if external_group \<noteq> 0 then (if read then isl_bool_true else isl_bool_false)
        else if isl_bool_val (overlap read) \<noteq> 0 then isl_bool_false
        else isl_bool_true)"

text \<open>An \<^verbatim>\<open>io_info\<close> entry matches the group: same I/O type and equal direction vector.\<close>

definition info_matches ::
  "(isl_vec \<Rightarrow> isl_vec \<Rightarrow> int) \<Rightarrow> autosa_array_ref_group \<Rightarrow> autosa_io_info \<Rightarrow> bool"
where
  "info_matches isl_vec_cmp g info \<longleftrightarrow>
     info_io_type info = io_type g \<and> isl_vec_cmp (info_dir info) (grp_dir g) = 0"

definition all_matching_rar ::
  "(isl_vec \<Rightarrow> isl_vec \<Rightarrow> int) \<Rightarrow> autosa_array_ref_group \<Rightarrow> bool"
where
  "all_matching_rar isl_vec_cmp g \<longleftrightarrow>
     list_all (\<lambda>ref. list_all (\<lambda>info. info_matches isl_vec_cmp g info
                                  \<longrightarrow> info_dep_type info = AUTOSA_DEP_RAR) (io_info ref))
       (refs g)"


subsection \<open>Hardware modules and the buffer lookup\<close>

text \<open>
  What the C code does on a path the language leaves undefined: a null buffer pointer or
  a null tile pointer is dereferenced, an array is read or written outside its bounds, an
  integer is divided by zero, an \<^verbatim>\<open>assert\<close> fails, or an uninitialised local is
  read.
\<close>

datatype error = NullBufDeref | NullTileDeref | OutOfBounds | DivByZero | AssertFailed | UninitRead

text \<open>A name printed by an \<^verbatim>\<open>isl_printer\<close>: the strings and integers in print order.\<close>

datatype name_part = Txt string | Num int

text \<open>
  A module points to groups that the generation keeps updating, so the model stores the
  identity of a group, not a copy of it: the array name, the group type and the group
  number.
\<close>

type_synonym group_id = "string \<times> autosa_group_type \<times> int"

definition group_id :: "autosa_array_ref_group \<Rightarrow> group_id" where
  "group_id g = (array_name g, group_type g, grp_nr g)"

text \<open>
  A transfer statement grafted into a module schedule, with the name the code prints for
  it: \<open>StmtAcc\<close> through \<^verbatim>\<open>add_io_copies_stmt_acc\<close> (one statement per array reference),
  \<open>StmtTile\<close> through \<^verbatim>\<open>add_io_copies_stmt_tile\<close> (one statement for the whole tile).
\<close>

datatype io_copy = StmtAcc "name_part list" | StmtTile "name_part list"

text \<open>
  \<^verbatim>\<open>struct autosa_hw_module\<close>, without its variable declarations. \<open>mod_io_groups\<close> is
  \<^verbatim>\<open>io_groups\<close> with \<^verbatim>\<open>n_io_group\<close> its length, \<open>pe_dummy_modules\<close> holds
  \<^verbatim>\<open>pe_dummy_modules[k]->io_group\<close>, and \<open>mod_stmts\<close> stands for the schedule trees of
  the module: the transfer statements grafted into them, in the order of generation.
\<close>

record autosa_hw_module =
  mod_name :: "name_part list"
  mod_type :: autosa_module_type
  mod_level :: int
  mod_in :: bool
  mod_is_filter :: bool
  mod_is_buffer :: bool
  to_pe :: bool
  to_mem :: bool
  mod_credit :: int
  n_array_ref :: int
  mod_double_buffer :: bool
  mod_boundary :: bool
  data_pack_inter :: int
  data_pack_intra :: int
  mod_io_groups :: "group_id list"
  pe_dummy_modules :: "group_id list"
  mod_stmts :: "io_copy list"

text \<open>
  The position of the schedule-tree cursor, as far as the code reads a schedule depth
  from it: at the mark of an I/O level, at its parent, at its first child, or at the node
  \<^verbatim>\<open>autosa_tree_move_down_to_depth\<close> reaches for a given depth.
\<close>

datatype node_pos = IoMark int | IoMarkParent int | IoMarkChild int | AtDepth int

text \<open>
  What the isl library and the helpers of other files compute for one group:
  \<open>sched_depth\<close> is \<^verbatim>\<open>isl_schedule_node_get_schedule_depth\<close> at a cursor position of the
  group's I/O schedule, \<open>fifo_suffix\<close> the name printed by
  \<^verbatim>\<open>autosa_array_ref_group_print_fifo_name\<close>, \<open>env_overlap\<close> the result of
  \<^verbatim>\<open>internal_group_in_out_overlap\<close> for a direction, and \<open>env_carried\<close> whether a matching
  dependence is carried by the array-partition band (the test of the credit block of
  \<^verbatim>\<open>sa_io_module_gen\<close>).
\<close>

record group_env =
  sched_depth :: "node_pos \<Rightarrow> int"
  fifo_suffix :: string
  env_overlap :: "bool \<Rightarrow> isl_bool"
  env_carried :: bool

text \<open>
  The loop \<^verbatim>\<open>for (i = start; i >= 1; i--) { buf = io_buffers[i - 1]; if (buf->tile != NULL)
  break; }\<close>, returning the final \<open>i\<close> and \<open>buf\<close>. The pointer \<open>buf\<close> keeps its
  value from before the loop when the body never runs.
\<close>

fun locate_buffer ::
  "autosa_io_buffer list \<Rightarrow> nat \<Rightarrow> autosa_io_buffer option
     \<Rightarrow> error + (int \<times> autosa_io_buffer option)"
where
  "locate_buffer bufs 0 buf = Inr (0, buf)"
| "locate_buffer bufs (Suc k) buf =
     (if k < length bufs then
        (let b = bufs ! k in
         if buf_tile b \<noteq> None then Inr (int (Suc k), Some b)
         else locate_buffer bufs k (Some b))
      else Inl OutOfBounds)"

definition find_buffer ::
  "autosa_io_buffer list \<Rightarrow> int \<Rightarrow> autosa_io_buffer option
     \<Rightarrow> error + (int \<times> autosa_io_buffer option)"
where
  "find_buffer bufs start buf =
     (if start < 1 then Inr (start, buf) else locate_buffer bufs (nat start) buf)"

text \<open>The conversion of a \<^verbatim>\<open>long\<close> to a 32-bit \<^verbatim>\<open>int\<close>.\<close>

definition c_int :: "int \<Rightarrow> int" where
  "c_int x = (x + 2 ^ 31) mod 2 ^ 32 - 2 ^ 31"

text \<open>
  The block that computes the coalesce loop depth and bound of a tile transfer:
  \<^verbatim>\<open>coalesce_depth = isl_schedule_node_get_schedule_depth(node) + tile->n - 1;
  coalesce_bound = isl_val_get_num_si(tile->bound[tile->n - 1].size) / n_lane;
  if (coalesce_bound <= 1) coalesce_depth = -1;\<close>
  \<open>tile_bound\<close> holds the \<^verbatim>\<open>long\<close> values; C division truncates towards zero.
  The result is \<open>(coalesce_depth, coalesce_bound)\<close>.
\<close>

definition coalesce :: "int \<Rightarrow> int \<Rightarrow> autosa_array_tile \<Rightarrow> error + (int \<times> int)" where
  "coalesce node_depth lanes t =
     (let coalesce_depth = node_depth + tile_n t - 1 in
      if tile_n t - 1 < 0 \<or> int (length (tile_bound t)) \<le> tile_n t - 1 then Inl OutOfBounds
      else if lanes = 0 then Inl DivByZero
      else
        let coalesce_bound = c_int ((tile_bound t ! nat (tile_n t - 1)) sdiv lanes) in
        Inr (if coalesce_bound \<le> 1 then - 1 else coalesce_depth, coalesce_bound))"


subsection \<open>Schedules of an I/O module\<close>

text \<open>
  The name prefix \<^verbatim>\<open>[in_trans/out_trans][_dram][_boundary].fifo_suffix[_local].
  [is_filter].[is_buffer].[depth-1].[space_dim-io_level].[n_lane]\<close> printed by
  \<^verbatim>\<open>generate_default_io_module_schedule\<close> and \<^verbatim>\<open>generate_io_module_inter_trans\<close>.
\<close>

definition trans_stmt_prefix ::
  "bool \<Rightarrow> bool \<Rightarrow> bool \<Rightarrow> string \<Rightarrow> bool \<Rightarrow> bool \<Rightarrow> int \<Rightarrow> int \<Rightarrow> int \<Rightarrow> int
     \<Rightarrow> name_part list"
where
  "trans_stmt_prefix read mem boundary suffix is_filter' is_buffer depth space_dim io_level lanes =
     [Txt (if read then ''in_trans'' else ''out_trans'')]
     @ (if mem then [Txt ''_dram''] else [])
     @ (if boundary then [Txt ''_boundary''] else [])
     @ [Txt ''.'', Txt suffix]
     @ (if mem then [Txt ''_local''] else [])
     @ [Txt (if \<not> is_filter' then ''.0'' else ''.1''),
        Txt (if \<not> is_buffer then ''.0'' else ''.1''),
        Txt ''.'', Num (depth - 1), Txt ''.'', Num (space_dim - io_level),
        Txt ''.'', Num lanes]"

text \<open>
  The name prefix of the extra transfer statement,
  \<^verbatim>\<open>[out_trans./in_trans.]fifo_suffix_local.0.[is_buffer].-1.-1.[n_lane]\<close>.
\<close>

definition local_stmt_prefix :: "bool \<Rightarrow> string \<Rightarrow> bool \<Rightarrow> int \<Rightarrow> name_part list" where
  "local_stmt_prefix read suffix is_buffer lanes =
     [Txt (if read then ''out_trans.'' else ''in_trans.''), Txt suffix, Txt ''_local'',
      Txt ''.0'', Txt (if \<not> is_buffer then ''.0'' else ''.1''), Txt ''.-1'', Txt ''.-1'',
      Txt ''.'', Num lanes]"

text \<open>
  The branch \<^verbatim>\<open>if (!buf->tile) { ... } else { ... }\<close> that grafts the transfer between
  this level and the next level towards memory. \<open>pos\<close> is the cursor position.
\<close>

definition inter_copy ::
  "group_env \<Rightarrow> autosa_hw_module \<Rightarrow> autosa_io_buffer \<Rightarrow> node_pos \<Rightarrow> name_part list
     \<Rightarrow> error + (autosa_hw_module \<times> io_copy)"
where
  "inter_copy env module buf pos p =
     (case buf_tile buf of
        None \<Rightarrow>
          Inr (module\<lparr>data_pack_inter := buf_n_lane buf, data_pack_intra := buf_n_lane buf\<rparr>,
               StmtAcc (p @ [Txt ''.'', Num (buf_n_lane buf)]))
      | Some t \<Rightarrow>
          (case coalesce (sched_depth env pos) (buf_n_lane buf) t of
             Inl e \<Rightarrow> Inl e
           | Inr (coalesce_depth, coalesce_bound) \<Rightarrow>
               Inr (module\<lparr>data_pack_inter := buf_n_lane buf,
                             data_pack_intra := buf_n_lane buf\<rparr>,
                    StmtTile (p @ [Txt ''.'', Num (buf_n_lane buf), Txt ''.'', Num coalesce_depth,
                                   Txt ''.'', Num coalesce_bound]))))"

text \<open>
  The block that grafts the transfer between this level and the next level towards the
  PEs: it locates the next buffer below \<open>cur_buf\<close>, moves the cursor there when
  \<^verbatim>\<open>cur_level > 1\<close>, and grafts per-reference or whole-tile statements.
\<close>

definition intra_copy ::
  "group_env \<Rightarrow> autosa_hw_module \<Rightarrow> autosa_array_ref_group \<Rightarrow> autosa_io_buffer \<Rightarrow> node_pos
     \<Rightarrow> name_part list \<Rightarrow> error + (autosa_hw_module \<times> io_copy)"
where
  "intra_copy env module g cur_buf pos p =
     (let cur_level = buf_level cur_buf in
      case find_buffer (io_buffers g) (cur_level - 1) (Some cur_buf) of
        Inl e \<Rightarrow> Inl e
      | Inr (i, None) \<Rightarrow> Inl NullBufDeref
      | Inr (i, Some buf) \<Rightarrow>
          let pos = (if cur_level > 1 then IoMarkChild (buf_level buf) else pos);
              per_reference = Inr (module\<lparr>data_pack_intra := grp_n_lane g\<rparr>,
                                   StmtAcc (p @ [Txt ''.'', Num (grp_n_lane g)]))
          in
          if cur_level = 1 then per_reference
          else
            (case buf_tile buf of
               None \<Rightarrow> per_reference
             | Some t \<Rightarrow>
                 (case coalesce (sched_depth env pos) (buf_n_lane buf) t of
                    Inl e \<Rightarrow> Inl e
                  | Inr (coalesce_depth, coalesce_bound) \<Rightarrow>
                      Inr (module\<lparr>data_pack_intra := buf_n_lane buf\<rparr>,
                           StmtTile (p @ [Txt ''.'', Num (buf_n_lane buf), Txt ''.'',
                                          Num coalesce_depth, Txt ''.'', Num coalesce_bound])))))"

text \<open>
  \<^verbatim>\<open>generate_default_io_module_schedule\<close>. After the buffer lookup the code prints
  \<^verbatim>\<open>buf->n_lane\<close> and then moves the cursor to \<^verbatim>\<open>buf->tile->depth\<close>, before the test
  \<^verbatim>\<open>if (!buf->tile)\<close>. The result is the module and the statements grafted.
\<close>

definition generate_default_io_module_schedule ::
  "group_env \<Rightarrow> autosa_hw_module \<Rightarrow> autosa_array_ref_group \<Rightarrow> int \<Rightarrow> int \<Rightarrow> bool \<Rightarrow> bool
     \<Rightarrow> bool \<Rightarrow> bool \<Rightarrow> error + (autosa_hw_module \<times> io_copy list)"
where
  "generate_default_io_module_schedule env module g io_level space_dim is_filter' is_buffer
       read boundary =
     (let depth = sched_depth env (IoMark io_level) in
      case find_buffer (io_buffers g) io_level None of
        Inl e \<Rightarrow> Inl e
      | Inr (i, bufp) \<Rightarrow>
          let is_buffer = (if is_buffer then (if i \<noteq> io_level then False else is_buffer)
                           else is_buffer) in
          (case bufp of
             None \<Rightarrow> Inl NullBufDeref
           | Some buf \<Rightarrow>
               let p = trans_stmt_prefix read (to_mem module) boundary (fifo_suffix env)
                         is_filter' is_buffer depth space_dim io_level (buf_n_lane buf) in
               (case buf_tile buf of
                  None \<Rightarrow> Inl NullTileDeref
                | Some t \<Rightarrow>
                    let pos = AtDepth (tile_depth t) in
                    (case inter_copy env module buf pos p of
                       Inl e \<Rightarrow> Inl e
                     | Inr (module, stmt1) \<Rightarrow>
                         (case (if is_buffer then
                                  (case intra_copy env module g buf pos
                                          (local_stmt_prefix read (fifo_suffix env) True
                                             (buf_n_lane buf)) of
                                     Inl e \<Rightarrow> Inl e
                                   | Inr (module, stmt2) \<Rightarrow> Inr (module, [stmt1, stmt2]))
                                else Inr (module, [stmt1])) of
                            Inl e \<Rightarrow> Inl e
                          | Inr (module, stmts) \<Rightarrow>
                              if \<not> boundary then
                                Inr (module\<lparr>mod_type :=
                                               (if group_type g = AUTOSA_DRAIN_GROUP
                                                then DRAIN_MODULE else IO_MODULE),
                                             mod_level := io_level,
                                             mod_io_groups := mod_io_groups module @ [group_id g],
                                             mod_is_buffer := is_buffer,
                                             mod_is_filter := is_filter',
                                             mod_in := read\<rparr>, stmts)
                              else Inr (module, stmts))))))"

text \<open>\<^verbatim>\<open>generate_default_io_module\<close>: a second, boundary schedule for a filter module.\<close>

definition generate_default_io_module ::
  "group_env \<Rightarrow> autosa_hw_module \<Rightarrow> autosa_array_ref_group \<Rightarrow> int \<Rightarrow> int \<Rightarrow> bool \<Rightarrow> bool
     \<Rightarrow> bool \<Rightarrow> error + (autosa_hw_module \<times> io_copy list)"
where
  "generate_default_io_module env module g io_level space_dim is_filter' is_buffer read =
     (case generate_default_io_module_schedule env module g io_level space_dim is_filter'
             is_buffer read False of
        Inl e \<Rightarrow> Inl e
      | Inr (module, stmts) \<Rightarrow>
          if is_filter' then
            (case generate_default_io_module_schedule env (module\<lparr>mod_boundary := True\<rparr>) g
                    io_level space_dim is_filter' is_buffer read True of
               Inl e \<Rightarrow> Inl e
             | Inr (module, stmts_boundary) \<Rightarrow> Inr (module, stmts @ stmts_boundary))
          else Inr (module, stmts))"


subsection \<open>Filter and buffer modules\<close>

text \<open>
  \<^verbatim>\<open>generate_io_module_inter_trans\<close>: \<^verbatim>\<open>is_filter\<close> and \<^verbatim>\<open>is_buffer\<close> are locals
  that start at 1; the cursor is moved to the first child of the mark of \<^verbatim>\<open>buf->level\<close>.
\<close>

definition generate_io_module_inter_trans ::
  "group_env \<Rightarrow> autosa_hw_module \<Rightarrow> autosa_array_ref_group \<Rightarrow> int \<Rightarrow> int \<Rightarrow> bool \<Rightarrow> bool
     \<Rightarrow> error + (autosa_hw_module \<times> io_copy list)"
where
  "generate_io_module_inter_trans env module g io_level space_dim read boundary =
     (let is_filter' = True; is_buffer = True in
      if to_mem module then Inl AssertFailed
      else
        let depth = sched_depth env (IoMark io_level) in
        case find_buffer (io_buffers g) io_level None of
          Inl e \<Rightarrow> Inl e
        | Inr (i, bufp) \<Rightarrow>
            let is_buffer = (if is_buffer then (if i \<noteq> io_level then False else is_buffer)
                             else is_buffer) in
            (case bufp of
               None \<Rightarrow> Inl NullBufDeref
             | Some buf \<Rightarrow>
                 let p = trans_stmt_prefix read (to_mem module) boundary (fifo_suffix env)
                           is_filter' is_buffer depth space_dim io_level (buf_n_lane buf) in
                 (case inter_copy env module buf (IoMarkChild (buf_level buf)) p of
                    Inl e \<Rightarrow> Inl e
                  | Inr (module, stmt) \<Rightarrow> Inr (module, [stmt]))))"

text \<open>
  \<^verbatim>\<open>generate_io_module_intra_trans\<close>: the cursor stands at the parent of the mark of
  \<^verbatim>\<open>io_level\<close> when the next buffer is looked up.
\<close>

definition generate_io_module_intra_trans ::
  "group_env \<Rightarrow> autosa_hw_module \<Rightarrow> autosa_array_ref_group \<Rightarrow> int \<Rightarrow> int \<Rightarrow> bool \<Rightarrow> bool
     \<Rightarrow> error + (autosa_hw_module \<times> io_copy list)"
where
  "generate_io_module_intra_trans env module g io_level space_dim read is_buffer =
     (if to_mem module then Inl AssertFailed
      else
        case find_buffer (io_buffers g) io_level None of
          Inl e \<Rightarrow> Inl e
        | Inr (i, bufp) \<Rightarrow>
            let is_buffer = (if is_buffer then (if i \<noteq> io_level then False else is_buffer)
                             else is_buffer) in
            (case bufp of
               None \<Rightarrow> Inl NullBufDeref
             | Some buf \<Rightarrow>
                 (case intra_copy env module g buf (IoMarkParent io_level)
                         (local_stmt_prefix read (fifo_suffix env) is_buffer (buf_n_lane buf)) of
                    Inl e \<Rightarrow> Inl e
                  | Inr (module, stmt) \<Rightarrow> Inr (module, [stmt]))))"

text \<open>
  \<^verbatim>\<open>generate_io_module_outer\<close>: it grafts the calls of the inter and intra transfer
  functions and, for the schedule that is not the boundary one, fills the module in. The
  local \<^verbatim>\<open>buf\<close> is not initialised before the lookup that precedes
  \<^verbatim>\<open>create_io_module_vars(module, kernel, buf->tile)\<close>.
\<close>

definition generate_io_module_outer ::
  "autosa_hw_module \<Rightarrow> autosa_array_ref_group \<Rightarrow> int \<Rightarrow> int \<Rightarrow> bool \<Rightarrow> bool
     \<Rightarrow> error + autosa_hw_module"
where
  "generate_io_module_outer module g io_level space_dim read boundary =
     (if to_mem module then Inl AssertFailed
      else if \<not> boundary then
        (case find_buffer (io_buffers g) io_level None of
           Inl e \<Rightarrow> Inl e
         | Inr (i, None) \<Rightarrow> Inl UninitRead
         | Inr (i, Some buf) \<Rightarrow>
             Inr (module\<lparr>mod_type := (if group_type g = AUTOSA_DRAIN_GROUP
                                        then DRAIN_MODULE else IO_MODULE),
                          mod_level := io_level,
                          mod_io_groups := mod_io_groups module @ [group_id g],
                          mod_is_buffer := True,
                          mod_is_filter := True,
                          mod_in := read\<rparr>))
      else Inr module)"

text \<open>\<^verbatim>\<open>struct autosa_options\<close>, the three flags the generation reads.\<close>

record autosa_options =
  opt_credit_control :: bool
  opt_two_level_buffer :: bool
  opt_double_buffer :: bool

text \<open>
  \<^verbatim>\<open>generate_filter_buffer_io_module\<close>: the inter transfer (and its boundary variant),
  the intra transfer, then the outer loops (and their boundary variant).
\<close>

definition generate_filter_buffer_io_module ::
  "autosa_options \<Rightarrow> group_env \<Rightarrow> autosa_hw_module \<Rightarrow> autosa_array_ref_group \<Rightarrow> int \<Rightarrow> int
     \<Rightarrow> bool \<Rightarrow> bool \<Rightarrow> bool \<Rightarrow> error + (autosa_hw_module \<times> io_copy list)"
where
  "generate_filter_buffer_io_module opts env module g io_level space_dim is_filter' is_buffer
       read =
     (let module = module\<lparr>mod_double_buffer :=
                     (if opt_double_buffer opts then array_type g = AUTOSA_EXT_ARRAY
                      else False)\<rparr> in
      case generate_io_module_inter_trans env module g io_level space_dim read False of
        Inl e \<Rightarrow> Inl e
      | Inr (module, stmts2) \<Rightarrow>
          (case (if is_filter' then
                   generate_io_module_inter_trans env (module\<lparr>mod_boundary := True\<rparr>) g
                     io_level space_dim read True
                 else Inr (module, [])) of
             Inl e \<Rightarrow> Inl e
           | Inr (module, stmts2b) \<Rightarrow>
               (case generate_io_module_intra_trans env module g io_level space_dim read
                       is_buffer of
                  Inl e \<Rightarrow> Inl e
                | Inr (module, stmts3) \<Rightarrow>
                    (case generate_io_module_outer module g io_level space_dim read False of
                       Inl e \<Rightarrow> Inl e
                     | Inr module \<Rightarrow>
                         (case (if is_filter' then
                                  generate_io_module_outer (module\<lparr>mod_boundary := True\<rparr>) g
                                    io_level space_dim read True
                                else Inr module) of
                            Inl e \<Rightarrow> Inl e
                          | Inr module \<Rightarrow> Inr (module, stmts2 @ stmts2b @ stmts3))))))"

text \<open>\<^verbatim>\<open>generate_io_module_by_type\<close>.\<close>

definition generate_io_module_by_type ::
  "autosa_options \<Rightarrow> group_env \<Rightarrow> autosa_hw_module \<Rightarrow> autosa_array_ref_group \<Rightarrow> int \<Rightarrow> int
     \<Rightarrow> bool \<Rightarrow> bool \<Rightarrow> bool \<Rightarrow> error + (autosa_hw_module \<times> io_copy list)"
where
  "generate_io_module_by_type opts env module g io_level space_dim is_filter' is_buffer read =
     (if is_filter' \<and> is_buffer then
        generate_filter_buffer_io_module opts env module g io_level space_dim is_filter'
          is_buffer read
      else
        generate_default_io_module env module g io_level space_dim is_filter' is_buffer read)"


subsection \<open>sa_io_module_gen\<close>

text \<open>\<^verbatim>\<open>generate_io_module_name\<close>: \<^verbatim>\<open>[array]_[nr|drain]_IO_L[level]_in/out\<close>.\<close>

definition generate_io_module_name :: "autosa_array_ref_group \<Rightarrow> int \<Rightarrow> bool \<Rightarrow> name_part list"
where
  "generate_io_module_name g level read =
     [Txt (array_name g)]
     @ (if group_type g = AUTOSA_IO_GROUP then
          (if n_io_group g > 1 then [Txt ''_'', Num (grp_nr g)] else [])
        else if group_type g = AUTOSA_DRAIN_GROUP then [Txt ''_'', Txt ''drain'']
        else [])
     @ [Txt ''_IO_L'', Num level]
     @ [Txt (if read then ''_in'' else ''_out'')]"

text \<open>
  The classification of \<^verbatim>\<open>is_buffer\<close> in the copy-in loop and in the copy-out loop.
  The local is not initialised, and no branch assigns it for a group that is neither a
  drain group nor an I/O group: the result is \<open>None\<close> then.
\<close>

definition classify_copy_in :: "autosa_array_ref_group \<Rightarrow> int \<Rightarrow> int \<Rightarrow> bool option" where
  "classify_copy_in g i innermost =
     (if group_type g = AUTOSA_DRAIN_GROUP then Some (i = innermost)
      else if group_type g = AUTOSA_IO_GROUP then
        (if array_type g = AUTOSA_INT_ARRAY then
           (if io_type g = AUTOSA_EXT_IO then Some (i = innermost)
            else if io_type g = AUTOSA_INT_IO then Some False
            else None)
         else if array_type g = AUTOSA_EXT_ARRAY then Some (i = innermost)
         else None)
      else None)"

definition classify_copy_out :: "autosa_array_ref_group \<Rightarrow> int \<Rightarrow> int \<Rightarrow> bool option" where
  "classify_copy_out g i innermost =
     (if group_type g = AUTOSA_DRAIN_GROUP then Some (i = innermost)
      else if group_type g = AUTOSA_IO_GROUP then
        (if io_type g = AUTOSA_INT_IO then Some False else Some (i = innermost))
      else None)"

text \<open>
  The body of the loop over the levels, for copy-in (\<open>read\<close>) and for copy-out. The state
  is \<^verbatim>\<open>group->local_array->n_io_group_refs\<close> and the array \<^verbatim>\<open>modules\<close>; \<open>alloc\<close> is
  the module returned by \<^verbatim>\<open>autosa_hw_module_alloc\<close>.
\<close>

definition io_module_gen_level ::
  "autosa_options \<Rightarrow> group_env \<Rightarrow> autosa_hw_module \<Rightarrow> autosa_array_ref_group \<Rightarrow> bool \<Rightarrow> int
     \<Rightarrow> int \<Rightarrow> int \<times> autosa_hw_module list \<Rightarrow> error + (int \<times> autosa_hw_module list)"
where
  "io_module_gen_level opts env alloc g read credit i st =
     (let io_level = grp_io_level g;
          space_dim = grp_space_dim g;
          outermost = io_level;
          innermost = (if io_type g = AUTOSA_INT_IO then 1 else 2);
          is_filter' = (if i = outermost then False else True);
          is_buffer = (if read then classify_copy_in g i innermost
                       else classify_copy_out g i innermost);
          is_buffer = (if opt_two_level_buffer opts
                       then (if i = outermost then Some True else is_buffer)
                       else is_buffer)
      in
      if i \<ge> innermost \<and> i \<le> outermost then
        (case is_buffer of
           None \<Rightarrow> Inl UninitRead
         | Some is_buffer \<Rightarrow>
             let module = alloc\<lparr>mod_name := generate_io_module_name g i read,
                                to_pe := (i = innermost),
                                to_mem := (i = outermost),
                                mod_credit := (if i = outermost then credit else 0),
                                n_array_ref := fst st\<rparr>;
                 n_io_group_refs = (if to_mem module then fst st + 1 else fst st)
             in
             (case generate_io_module_by_type opts env module g i space_dim is_filter'
                     is_buffer read of
                Inl e \<Rightarrow> Inl e
              | Inr (module, stmts) \<Rightarrow>
                  Inr (n_io_group_refs, snd st @ [module\<lparr>mod_stmts := stmts\<rparr>])))
      else Inr st)"

fun io_module_gen_levels ::
  "autosa_options \<Rightarrow> group_env \<Rightarrow> autosa_hw_module \<Rightarrow> autosa_array_ref_group \<Rightarrow> bool \<Rightarrow> int
     \<Rightarrow> int list \<Rightarrow> int \<times> autosa_hw_module list \<Rightarrow> error + (int \<times> autosa_hw_module list)"
where
  "io_module_gen_levels opts env alloc g read credit [] st = Inr st"
| "io_module_gen_levels opts env alloc g read credit (i # levels) st =
     (case io_module_gen_level opts env alloc g read credit i st of
        Inl e \<Rightarrow> Inl e
      | Inr st \<Rightarrow> io_module_gen_levels opts env alloc g read credit levels st)"

text \<open>
  The copy-in block of \<^verbatim>\<open>sa_io_module_gen\<close>: when \<^verbatim>\<open>in\<close> is set and the module
  is valid for read, the direction flag is updated and the loop runs from \<^verbatim>\<open>io_level\<close>
  down to 1.
\<close>

definition sa_io_module_gen_copy_in ::
  "(isl_vec \<Rightarrow> isl_vec \<Rightarrow> int) \<Rightarrow> autosa_options \<Rightarrow> group_env \<Rightarrow> autosa_hw_module
     \<Rightarrow> autosa_array_ref_group \<Rightarrow> int \<Rightarrow> int \<Rightarrow> bool
     \<Rightarrow> error + (autosa_array_ref_group \<times> int \<times> autosa_hw_module list)"
where
  "sa_io_module_gen_copy_in isl_vec_cmp opts env alloc g credit n_io_group_refs inp =
     (if inp \<and> isl_bool_val (is_module_valid isl_vec_cmp (env_overlap env) g True) \<noteq> 0
      then
        (let g = g\<lparr>array_io_dir :=
                     (if array_io_dir g = IO_OUT then IO_INOUT else IO_IN)\<rparr> in
         case io_module_gen_levels opts env alloc g True credit (rev [1..grp_io_level g])
                (n_io_group_refs, []) of
           Inl e \<Rightarrow> Inl e
         | Inr st \<Rightarrow> Inr (g, st))
      else Inr (g, n_io_group_refs, []))"

text \<open>
  The copy-out block of \<^verbatim>\<open>sa_io_module_gen\<close>: when \<^verbatim>\<open>out\<close> is set and the module
  is valid for write, the direction flag is updated and the loop runs from 1 up to
  \<^verbatim>\<open>io_level\<close>.
\<close>

definition sa_io_module_gen_copy_out ::
  "(isl_vec \<Rightarrow> isl_vec \<Rightarrow> int) \<Rightarrow> autosa_options \<Rightarrow> group_env \<Rightarrow> autosa_hw_module
     \<Rightarrow> autosa_array_ref_group \<Rightarrow> int \<Rightarrow> int \<times> autosa_hw_module list \<Rightarrow> bool
     \<Rightarrow> error + (autosa_array_ref_group \<times> int \<times> autosa_hw_module list)"
where
  "sa_io_module_gen_copy_out isl_vec_cmp opts env alloc g credit st outp =
     (if outp \<and> isl_bool_val (is_module_valid isl_vec_cmp (env_overlap env) g False) \<noteq> 0
      then
        (let g = g\<lparr>array_io_dir :=
                     (if array_io_dir g = IO_IN then IO_INOUT else IO_OUT)\<rparr> in
         case io_module_gen_levels opts env alloc g False credit [1..grp_io_level g] st of
           Inl e \<Rightarrow> Inl e
         | Inr st \<Rightarrow> Inr (g, st))
      else Inr (g, st))"

text \<open>
  \<^verbatim>\<open>sa_io_module_gen(group, gen, &n_modules, in, out)\<close>: the credit test, the copy-in
  block, then the copy-out block. The result is the group with its direction flag
  updated, the counter \<^verbatim>\<open>local_array->n_io_group_refs\<close> and the modules.
\<close>

definition sa_io_module_gen ::
  "(isl_vec \<Rightarrow> isl_vec \<Rightarrow> int) \<Rightarrow> autosa_options \<Rightarrow> group_env \<Rightarrow> autosa_hw_module
     \<Rightarrow> autosa_array_ref_group \<Rightarrow> int \<Rightarrow> bool \<Rightarrow> bool
     \<Rightarrow> error + (autosa_array_ref_group \<times> int \<times> autosa_hw_module list)"
where
  "sa_io_module_gen isl_vec_cmp opts env alloc g n_io_group_refs inp outp =
     (let credit = (if opt_credit_control opts \<and> array_type g = AUTOSA_INT_ARRAY
                       \<and> env_carried env then 1 else 0)
      in
      case sa_io_module_gen_copy_in isl_vec_cmp opts env alloc g credit n_io_group_refs inp of
        Inl e \<Rightarrow> Inl e
      | Inr (g, st) \<Rightarrow> sa_io_module_gen_copy_out isl_vec_cmp opts env alloc g credit st outp)"

subsection \<open>The PE module\<close>

text \<open>
  What \<^verbatim>\<open>add_pe_ext_io_copies_stmt\<close> finds at one node of the bottom-up traversal:
  whether the node is a leaf, whether \<^verbatim>\<open>leaf_node_is_extended\<close> holds, whether the
  statement of the leaf is the statement of the reference, and the result of
  \<^verbatim>\<open>isl_union_map_is_empty\<close> on the access relation \<^verbatim>\<open>io_comm_access_ref\<close> returns.
\<close>

record leaf_visit =
  lv_is_leaf :: bool
  lv_extended :: bool
  lv_same_stmt :: bool
  lv_empty :: isl_bool

text \<open>
  What isl computes for one group while the PE module is built: the visits of the
  traversal for a direction and a reference, and the emptiness of \<^verbatim>\<open>io_comm_access\<close>
  for a direction.
\<close>

record pe_env =
  pe_visits :: "bool \<Rightarrow> nat \<Rightarrow> leaf_visit list"
  pe_int_empty :: "bool \<Rightarrow> isl_bool"

text \<open>
  \<^verbatim>\<open>add_pe_ext_io_copies_stmt\<close>, as far as the cursor stays valid (\<open>fst\<close> of the state)
  and the group's \<^verbatim>\<open>pe_io_dir\<close> is updated. A null cursor is not a leaf.
\<close>

definition add_pe_ext_io_copies_stmt ::
  "bool \<Rightarrow> bool \<Rightarrow> leaf_visit \<Rightarrow> bool \<times> autosa_array_ref_group \<Rightarrow> bool \<times> autosa_array_ref_group"
where
  "add_pe_ext_io_copies_stmt dummy read v st =
     (let node = fst st; io_group = snd st in
      if \<not> node \<or> \<not> lv_is_leaf v then st
      else if \<not> lv_extended v \<and> \<not> lv_same_stmt v then st
      else if lv_extended v then st
      else if isl_bool_val (lv_empty v) < 0 \<or> isl_bool_val (lv_empty v) \<noteq> 0 then
        (if isl_bool_val (lv_empty v) < 0 then (False, io_group) else st)
      else if \<not> dummy then
        (if read then
           (node, io_group\<lparr>pe_io_dir :=
                    (if pe_io_dir io_group = IO_OUT then IO_INOUT else IO_IN)\<rparr>)
         else
           (node, io_group\<lparr>pe_io_dir :=
                    (if pe_io_dir io_group = IO_IN then IO_INOUT else IO_OUT)\<rparr>))
      else st)"

text \<open>
  \<^verbatim>\<open>add_pe_ext_io_copies\<close>: for each reference of the group, the traversal calls
  \<^verbatim>\<open>add_pe_ext_io_copies_stmt\<close> at each node.
\<close>

definition add_pe_ext_io_copies ::
  "pe_env \<Rightarrow> bool \<Rightarrow> bool \<times> autosa_array_ref_group \<Rightarrow> bool \<times> autosa_array_ref_group"
where
  "add_pe_ext_io_copies penv read st =
     fold (\<lambda>i st. fold (add_pe_ext_io_copies_stmt False read) (pe_visits penv read i) st)
       [0 ..< length (refs (snd st))] st"

text \<open>\<^verbatim>\<open>add_pe_int_io_copies\<close>: one transfer around the whole PE-level subtree.\<close>

definition add_pe_int_io_copies ::
  "pe_env \<Rightarrow> bool \<Rightarrow> bool \<times> autosa_array_ref_group \<Rightarrow> bool \<times> autosa_array_ref_group"
where
  "add_pe_int_io_copies penv read st =
     (let node = fst st; io_group = snd st;
          empty = (if node then isl_bool_val (pe_int_empty penv read) else - 1)
      in
      if empty < 0 \<or> empty \<noteq> 0 then (if empty < 0 then (False, io_group) else st)
      else if read then
        (node, io_group\<lparr>pe_io_dir :=
                 (if pe_io_dir io_group = IO_OUT then IO_INOUT else IO_IN)\<rparr>)
      else
        (node, io_group\<lparr>pe_io_dir :=
                 (if pe_io_dir io_group = IO_IN then IO_INOUT else IO_OUT)\<rparr>))"

text \<open>
  \<^verbatim>\<open>struct autosa_local_array_info\<close>: a null \<^verbatim>\<open>drain_group\<close> is \<open>None\<close>, and
  \<^verbatim>\<open>n_io_group\<close> is the length of \<open>la_io_groups\<close>.
\<close>

record autosa_local_array_info =
  la_array_type :: autosa_array_type
  la_io_groups :: "autosa_array_ref_group list"
  la_drain_group :: "autosa_array_ref_group option"
  la_n_io_group_refs :: int

text \<open>
  The first loop of \<^verbatim>\<open>sa_pe_module_gen\<close>, over the I/O groups of one array: the copy
  statements are grafted for write, then for read. The state is the cursor and
  \<^verbatim>\<open>module->io_groups\<close>; the groups come back with their \<^verbatim>\<open>pe_io_dir\<close> updated.
\<close>

fun pe_graft_io_groups ::
  "(group_id \<Rightarrow> pe_env) \<Rightarrow> autosa_array_ref_group list \<Rightarrow> bool \<times> group_id list
     \<Rightarrow> autosa_array_ref_group list \<times> bool \<times> group_id list"
where
  "pe_graft_io_groups penv [] st = ([], st)"
| "pe_graft_io_groups penv (g # gs) st =
     (if array_io_dir g = IO_NULL then
        (let (gs', st') = pe_graft_io_groups penv gs st in (g # gs', st'))
      else
        let (node, g') =
              (if array_type g = AUTOSA_EXT_ARRAY then
                 add_pe_ext_io_copies (penv (group_id g)) True
                   (add_pe_ext_io_copies (penv (group_id g)) False (fst st, g))
               else if array_type g = AUTOSA_INT_ARRAY then
                 (if io_type g = AUTOSA_INT_IO then
                    add_pe_int_io_copies (penv (group_id g)) True
                      (add_pe_int_io_copies (penv (group_id g)) False (fst st, g))
                  else
                    add_pe_ext_io_copies (penv (group_id g)) True
                      (add_pe_ext_io_copies (penv (group_id g)) False (fst st, g)))
               else (fst st, g));
            (gs', st') = pe_graft_io_groups penv gs (node, snd st @ [group_id g])
        in (g' # gs', st'))"

text \<open>The first loop of \<^verbatim>\<open>sa_pe_module_gen\<close>, over the arrays of the kernel.\<close>

fun pe_graft_arrays ::
  "(group_id \<Rightarrow> pe_env) \<Rightarrow> autosa_local_array_info list \<Rightarrow> bool \<times> group_id list
     \<Rightarrow> autosa_local_array_info list \<times> bool \<times> group_id list"
where
  "pe_graft_arrays penv [] st = ([], st)"
| "pe_graft_arrays penv (a # as) st =
     (let (gs', st1) = pe_graft_io_groups penv (la_io_groups a) st;
          (d', st2) =
            (case la_drain_group a of
               None \<Rightarrow> (None, st1)
             | Some d \<Rightarrow>
                 if array_io_dir d \<noteq> IO_NULL then
                   (let (node, d') = add_pe_ext_io_copies (penv (group_id d)) False (fst st1, d)
                    in (Some d', node, snd st1 @ [group_id d]))
                 else (Some d, st1));
          (as', st3) = pe_graft_arrays penv as st2
      in (a\<lparr>la_io_groups := gs', la_drain_group := d'\<rparr> # as', st3))"

text \<open>
  The last loop of \<^verbatim>\<open>sa_pe_module_gen\<close>: the groups a PE dummy module is generated
  for, in order.
\<close>

fun pe_dummy_io_groups :: "autosa_array_ref_group list \<Rightarrow> group_id list" where
  "pe_dummy_io_groups [] = []"
| "pe_dummy_io_groups (g # gs) =
     (if pe_io_dir g \<noteq> IO_INOUT then pe_dummy_io_groups gs
      else group_id g # pe_dummy_io_groups gs)"

fun pe_dummy_arrays :: "autosa_local_array_info list \<Rightarrow> group_id list" where
  "pe_dummy_arrays [] = []"
| "pe_dummy_arrays (a # as) =
     (if la_array_type a = AUTOSA_INT_ARRAY then pe_dummy_arrays as
      else pe_dummy_io_groups (la_io_groups a) @ pe_dummy_arrays as)"

text \<open>
  \<^verbatim>\<open>sa_pe_module_gen\<close>: the copy statements are grafted for all groups, the module is
  filled in, and then the dummy modules are generated.
\<close>

definition sa_pe_module_gen ::
  "(group_id \<Rightarrow> pe_env) \<Rightarrow> autosa_hw_module \<Rightarrow> autosa_local_array_info list
     \<Rightarrow> autosa_local_array_info list \<times> autosa_hw_module"
where
  "sa_pe_module_gen penv alloc arrays =
     (let (arrays, node, groups) = pe_graft_arrays penv arrays (True, mod_io_groups alloc);
          module = alloc\<lparr>mod_io_groups := groups, mod_type := PE_MODULE,
                         mod_name := [Txt ''PE'']\<rparr>
      in (arrays, module\<lparr>pe_dummy_modules := pe_dummy_arrays arrays\<rparr>))"

subsection \<open>hw_module_reorder and generate_hw_modules\<close>

text \<open>
  One scanning loop of \<^verbatim>\<open>hw_module_reorder\<close>: the selected modules are stored at
  \<^verbatim>\<open>modules_new[pos]\<close>. The array \<^verbatim>\<open>modules_new\<close> has \<^verbatim>\<open>n_module\<close> slots, \<open>None\<close>
  while nothing is stored in them; a store at \<^verbatim>\<open>pos >= n_module\<close> is out of bounds.
\<close>

fun copy_modules ::
  "(autosa_hw_module \<Rightarrow> bool) \<Rightarrow> autosa_hw_module list \<Rightarrow> autosa_hw_module option list \<times> nat
     \<Rightarrow> error + (autosa_hw_module option list \<times> nat)"
where
  "copy_modules sel [] st = Inr st"
| "copy_modules sel (module # rest) (modules_new, pos) =
     (if sel module then
        (if pos < length modules_new
         then copy_modules sel rest (modules_new[pos := Some module], pos + 1)
         else Inl OutOfBounds)
      else copy_modules sel rest (modules_new, pos))"

text \<open>
  \<^verbatim>\<open>hw_module_reorder(modules, n_module)\<close>, with \<^verbatim>\<open>n_module\<close> the length of the list:
  the copy-in I/O modules, then \<^verbatim>\<open>modules[0]\<close>, then the copy-out I/O modules, then the
  drain modules.
\<close>

definition hw_module_reorder ::
  "autosa_hw_module list \<Rightarrow> error + autosa_hw_module option list"
where
  "hw_module_reorder modules =
     (let n_module = length modules;
          modules_new = replicate n_module None
      in
      case copy_modules (\<lambda>module. mod_type module = IO_MODULE \<and> mod_in module) modules
             (modules_new, 0) of
        Inl e \<Rightarrow> Inl e
      | Inr (modules_new, pos) \<Rightarrow>
          (case modules of
             [] \<Rightarrow> Inl OutOfBounds
           | module0 # _ \<Rightarrow>
               if pos < n_module then
                 (case copy_modules (\<lambda>module. mod_type module = IO_MODULE \<and> \<not> mod_in module)
                         modules (modules_new[pos := Some module0], pos + 1) of
                    Inl e \<Rightarrow> Inl e
                  | Inr st \<Rightarrow>
                      (case copy_modules (\<lambda>module. mod_type module = DRAIN_MODULE) modules st of
                         Inl e \<Rightarrow> Inl e
                       | Inr (modules_new, pos) \<Rightarrow> Inr modules_new))
               else Inl OutOfBounds))"

text \<open>The three selections of \<^verbatim>\<open>hw_module_reorder\<close>.\<close>

definition is_copy_in :: "autosa_hw_module \<Rightarrow> bool" where
  "is_copy_in module \<longleftrightarrow> mod_type module = IO_MODULE \<and> mod_in module"

definition is_copy_out :: "autosa_hw_module \<Rightarrow> bool" where
  "is_copy_out module \<longleftrightarrow> mod_type module = IO_MODULE \<and> \<not> mod_in module"

definition is_drain :: "autosa_hw_module \<Rightarrow> bool" where
  "is_drain module \<longleftrightarrow> mod_type module = DRAIN_MODULE"

text \<open>
  The shape of the list \<^verbatim>\<open>generate_hw_modules\<close> builds: the PE module at index 0 and
  only I/O and drain modules after it.
\<close>

definition pe_first :: "autosa_hw_module list \<Rightarrow> bool" where
  "pe_first modules \<longleftrightarrow>
     (case modules of
        [] \<Rightarrow> False
      | module0 # rest \<Rightarrow>
          mod_type module0 = PE_MODULE \<and>
          list_all (\<lambda>module. mod_type module = IO_MODULE \<or> mod_type module = DRAIN_MODULE) rest)"

text \<open>The final order: copy-in I/O modules, the PE module, copy-out I/O modules, drain modules.\<close>

definition final_order :: "autosa_hw_module list \<Rightarrow> autosa_hw_module list" where
  "final_order modules =
     filter is_copy_in (tl modules) @ [hd modules] @ filter is_copy_out (tl modules)
     @ filter is_drain (tl modules)"


text \<open>
  The loop of \<^verbatim>\<open>generate_hw_modules\<close> over the I/O groups of one array, calling
  \<^verbatim>\<open>sa_io_module_gen(group, gen, &n, 1, 1)\<close>, and the loop over the arrays, which resets
  \<^verbatim>\<open>n_io_group_refs\<close>. The modules are appended to \<^verbatim>\<open>gen->hw_modules\<close>.
\<close>

fun gen_io_groups ::
  "(isl_vec \<Rightarrow> isl_vec \<Rightarrow> int) \<Rightarrow> autosa_options \<Rightarrow> (group_id \<Rightarrow> group_env) \<Rightarrow> autosa_hw_module
     \<Rightarrow> autosa_array_ref_group list \<Rightarrow> int \<times> autosa_hw_module list
     \<Rightarrow> error + (autosa_array_ref_group list \<times> int \<times> autosa_hw_module list)"
where
  "gen_io_groups isl_vec_cmp opts env alloc [] st = Inr ([], st)"
| "gen_io_groups isl_vec_cmp opts env alloc (g # gs) st =
     (case sa_io_module_gen isl_vec_cmp opts (env (group_id g)) alloc g (fst st) True True of
        Inl e \<Rightarrow> Inl e
      | Inr (g', n_io_group_refs, hw_modules) \<Rightarrow>
          (case gen_io_groups isl_vec_cmp opts env alloc gs
                  (n_io_group_refs, snd st @ hw_modules) of
             Inl e \<Rightarrow> Inl e
           | Inr (gs', st') \<Rightarrow> Inr (g' # gs', st')))"

fun gen_io_arrays ::
  "(isl_vec \<Rightarrow> isl_vec \<Rightarrow> int) \<Rightarrow> autosa_options \<Rightarrow> (group_id \<Rightarrow> group_env) \<Rightarrow> autosa_hw_module
     \<Rightarrow> autosa_local_array_info list \<Rightarrow> autosa_hw_module list
     \<Rightarrow> error + (autosa_local_array_info list \<times> autosa_hw_module list)"
where
  "gen_io_arrays isl_vec_cmp opts env alloc [] hw_modules = Inr ([], hw_modules)"
| "gen_io_arrays isl_vec_cmp opts env alloc (info # rest) hw_modules =
     (case gen_io_groups isl_vec_cmp opts env alloc (la_io_groups info) (0, hw_modules) of
        Inl e \<Rightarrow> Inl e
      | Inr (gs', n_refs, hw_modules) \<Rightarrow>
          (case gen_io_arrays isl_vec_cmp opts env alloc rest hw_modules of
             Inl e \<Rightarrow> Inl e
           | Inr (rest', hw_modules) \<Rightarrow>
               Inr (info\<lparr>la_io_groups := gs', la_n_io_group_refs := n_refs\<rparr> # rest',
                    hw_modules)))"

text \<open>
  The loop of \<^verbatim>\<open>generate_hw_modules\<close> over the drain groups, calling
  \<^verbatim>\<open>sa_io_module_gen(info->drain_group, gen, &n, 0, 1)\<close>.
\<close>

fun gen_drain_arrays ::
  "(isl_vec \<Rightarrow> isl_vec \<Rightarrow> int) \<Rightarrow> autosa_options \<Rightarrow> (group_id \<Rightarrow> group_env) \<Rightarrow> autosa_hw_module
     \<Rightarrow> autosa_local_array_info list \<Rightarrow> autosa_hw_module list
     \<Rightarrow> error + (autosa_local_array_info list \<times> autosa_hw_module list)"
where
  "gen_drain_arrays isl_vec_cmp opts env alloc [] hw_modules = Inr ([], hw_modules)"
| "gen_drain_arrays isl_vec_cmp opts env alloc (info # rest) hw_modules =
     (case la_drain_group info of
        None \<Rightarrow>
          (case gen_drain_arrays isl_vec_cmp opts env alloc rest hw_modules of
             Inl e \<Rightarrow> Inl e
           | Inr (rest', hw_modules) \<Rightarrow> Inr (info # rest', hw_modules))
      | Some d \<Rightarrow>
          (case sa_io_module_gen isl_vec_cmp opts (env (group_id d)) alloc d
                  (la_n_io_group_refs info) False True of
             Inl e \<Rightarrow> Inl e
           | Inr (d', n_refs, drain_modules) \<Rightarrow>
               (case gen_drain_arrays isl_vec_cmp opts env alloc rest
                       (hw_modules @ drain_modules) of
                  Inl e \<Rightarrow> Inl e
                | Inr (rest', hw_modules) \<Rightarrow>
                    Inr (info\<lparr>la_drain_group := Some d', la_n_io_group_refs := n_refs\<rparr> # rest',
                         hw_modules))))"

text \<open>
  The list \<^verbatim>\<open>gen->hw_modules\<close> that \<^verbatim>\<open>generate_hw_modules\<close> hands to
  \<^verbatim>\<open>hw_module_reorder\<close>: slot 0 is kept for the PE module, which is generated after the
  I/O and drain modules and stored there.
\<close>

definition hw_modules_before_reorder ::
  "(isl_vec \<Rightarrow> isl_vec \<Rightarrow> int) \<Rightarrow> autosa_options \<Rightarrow> (group_id \<Rightarrow> group_env)
     \<Rightarrow> (group_id \<Rightarrow> pe_env) \<Rightarrow> autosa_hw_module \<Rightarrow> autosa_local_array_info list
     \<Rightarrow> error + (autosa_local_array_info list \<times> autosa_hw_module list)"
where
  "hw_modules_before_reorder isl_vec_cmp opts env penv alloc arrays =
     (case gen_io_arrays isl_vec_cmp opts env alloc arrays [] of
        Inl e \<Rightarrow> Inl e
      | Inr (arrays, io_modules) \<Rightarrow>
          (case gen_drain_arrays isl_vec_cmp opts env alloc arrays io_modules of
             Inl e \<Rightarrow> Inl e
           | Inr (arrays, hw_modules) \<Rightarrow>
               let (arrays, pe_module) = sa_pe_module_gen penv alloc arrays
               in Inr (arrays, pe_module # hw_modules)))"

text \<open>\<^verbatim>\<open>generate_hw_modules\<close>, up to the reordered module list.\<close>

definition generate_hw_modules ::
  "(isl_vec \<Rightarrow> isl_vec \<Rightarrow> int) \<Rightarrow> autosa_options \<Rightarrow> (group_id \<Rightarrow> group_env)
     \<Rightarrow> (group_id \<Rightarrow> pe_env) \<Rightarrow> autosa_hw_module \<Rightarrow> autosa_local_array_info list
     \<Rightarrow> error + (autosa_local_array_info list \<times> autosa_hw_module option list)"
where
  "generate_hw_modules isl_vec_cmp opts env penv alloc arrays =
     (case hw_modules_before_reorder isl_vec_cmp opts env penv alloc arrays of
        Inl e \<Rightarrow> Inl e
      | Inr (arrays, hw_modules) \<Rightarrow>
          (case hw_module_reorder hw_modules of
             Inl e \<Rightarrow> Inl e
           | Inr hw_modules \<Rightarrow> Inr (arrays, hw_modules)))"


subsection \<open>Properties of the generated modules\<close>

text \<open>The type a module gets from the group it is generated for.\<close>

definition module_kind :: "autosa_array_ref_group \<Rightarrow> autosa_module_type" where
  "module_kind g = (if group_type g = AUTOSA_DRAIN_GROUP then DRAIN_MODULE else IO_MODULE)"

text \<open>
  The fields \<^verbatim>\<open>type\<close>, \<^verbatim>\<open>level\<close>, \<^verbatim>\<open>is_filter\<close> and \<^verbatim>\<open>in\<close> of a module generated
  for group \<open>g\<close> at a level, with a filter flag, for a direction.
\<close>

definition filled :: "autosa_array_ref_group \<Rightarrow> int \<Rightarrow> bool \<Rightarrow> bool \<Rightarrow> autosa_hw_module \<Rightarrow> bool" where
  "filled g l f rd m \<longleftrightarrow>
     mod_type m = module_kind g \<and> mod_level m = l \<and> mod_is_filter m = f \<and> mod_in m = rd"

text \<open>The innermost level of a chain: level 1 is merged into the PEs unless the I/O is interior.\<close>

definition innermost :: "autosa_array_ref_group \<Rightarrow> int" where
  "innermost g = (if io_type g = AUTOSA_INT_IO then 1 else 2)"

text \<open>A module of the chain of \<open>g\<close>: its filter flag is false exactly at the outermost level.\<close>

definition generated :: "autosa_array_ref_group \<Rightarrow> bool \<Rightarrow> autosa_hw_module \<Rightarrow> bool" where
  "generated g rd m \<longleftrightarrow> filled g (mod_level m) (mod_level m \<noteq> grp_io_level g) rd m"

text \<open>The condition \<^verbatim>\<open>is_module_valid(node, kernel, group, read)\<close> of \<^verbatim>\<open>sa_io_module_gen\<close>.\<close>

definition valid_dir ::
  "(isl_vec \<Rightarrow> isl_vec \<Rightarrow> int) \<Rightarrow> group_env \<Rightarrow> autosa_array_ref_group \<Rightarrow> bool \<Rightarrow> bool" where
  "valid_dir c env g rd \<longleftrightarrow> isl_bool_val (is_module_valid c (env_overlap env) g rd) \<noteq> 0"

definition io_or_drain :: "autosa_hw_module \<Rightarrow> bool" where
  "io_or_drain module \<longleftrightarrow> mod_type module = IO_MODULE \<or> mod_type module = DRAIN_MODULE"

text \<open>A tile with an innermost dimension: \<^verbatim>\<open>bound[n - 1]\<close> exists.\<close>

definition wf_tile :: "autosa_array_tile \<Rightarrow> bool" where
  "wf_tile t \<longleftrightarrow> 1 \<le> tile_n t \<and> tile_n t \<le> int (length (tile_bound t))"

text \<open>The level, buffer flag and filter flag of each module \<^verbatim>\<open>sa_io_module_gen\<close> returns.\<close>

definition level_flags ::
  "error + (autosa_array_ref_group \<times> int \<times> autosa_hw_module list)
     \<Rightarrow> (int \<times> bool \<times> bool) list option"
where
  "level_flags r =
     (case r of
        Inl e \<Rightarrow> None
      | Inr (g, n, modules) \<Rightarrow>
          Some (map (\<lambda>module. (mod_level module, mod_is_buffer module, mod_is_filter module))
                  modules))"

text \<open>Sample groups: an I/O group whose only matching entry is read-after-read, and a PE group.\<close>

definition sample_buffers :: "autosa_io_buffer list" where
  "sample_buffers =
     [\<lparr>buf_level = 1, buf_n_lane = 4,
        buf_tile = Some \<lparr>tile_depth = 3, tile_n = 2, tile_bound = [8, 16]\<rparr>\<rparr>,
      \<lparr>buf_level = 2, buf_n_lane = 4, buf_tile = None\<rparr>,
      \<lparr>buf_level = 3, buf_n_lane = 4,
        buf_tile = Some \<lparr>tile_depth = 1, tile_n = 2, tile_bound = [32, 64]\<rparr>\<rparr>]"

definition sample_rar_group :: autosa_array_ref_group where
  "sample_rar_group =
     \<lparr>array_name = ''A'', grp_nr = 0, group_type = AUTOSA_IO_GROUP, io_type = AUTOSA_INT_IO,
      grp_dir = [0, 1], array_type = AUTOSA_EXT_ARRAY, n_io_group = 1,
      refs = [\<lparr>io_info = [\<lparr>info_io_type = AUTOSA_INT_IO, info_dir = [0, 1],
                                info_dep_type = AUTOSA_DEP_RAR\<rparr>,
                              \<lparr>info_io_type = AUTOSA_EXT_IO, info_dir = [0, 1],
                                info_dep_type = AUTOSA_DEP_RAW\<rparr>]\<rparr>],
      grp_io_level = 3, grp_space_dim = 2, grp_n_lane = 1, io_buffers = sample_buffers,
      array_io_dir = IO_NULL, pe_io_dir = IO_NULL\<rparr>"

definition sample_pe_group :: autosa_array_ref_group where
  "sample_pe_group = sample_rar_group\<lparr>group_type := AUTOSA_PE_GROUP\<rparr>"

text \<open>
  The same three levels for a group of an internal array with interior I/O and a flow
  dependence, which the overlap analysis (\<open>env_overlap sample_env\<close>) does not prune.
\<close>

definition sample_int_group :: autosa_array_ref_group where
  "sample_int_group =
     sample_rar_group\<lparr>array_name := ''C'', array_type := AUTOSA_INT_ARRAY,
       refs := [\<lparr>io_info = [\<lparr>info_io_type = AUTOSA_INT_IO, info_dir = [0, 1],
                                 info_dep_type = AUTOSA_DEP_RAW\<rparr>]\<rparr>]\<rparr>"

text \<open>The comparison of two vectors of the same length: zero exactly when they are equal.\<close>

definition sample_vec_cmp :: "isl_vec \<Rightarrow> isl_vec \<Rightarrow> int" where
  "sample_vec_cmp v w = (if v = w then 0 else 1)"

definition sample_env :: group_env where
  "sample_env =
     \<lparr>sched_depth = (\<lambda>pos. 2), fifo_suffix = ''fifo_A'',
      env_overlap = (\<lambda>read. isl_bool_false), env_carried = False\<rparr>"

definition sample_opts :: autosa_options where
  "sample_opts =
     \<lparr>opt_credit_control = False, opt_two_level_buffer = True, opt_double_buffer = False\<rparr>"

definition sample_alloc :: autosa_hw_module where
  "sample_alloc =
     \<lparr>mod_name = [], mod_type = IO_MODULE, mod_level = 0, mod_in = False,
      mod_is_filter = False, mod_is_buffer = False, to_pe = False, to_mem = False,
      mod_credit = 0, n_array_ref = 0, mod_double_buffer = False, mod_boundary = False,
      data_pack_inter = 0, data_pack_intra = 0, mod_io_groups = [], pe_dummy_modules = [],
      mod_stmts = []\<rparr>"

text \<open>
  At each leaf the traversal of the PE schedule finds the statement of the reference with a
  non-empty access, for both directions.
\<close>

definition sample_penv :: pe_env where
  "sample_penv =
     \<lparr>pe_visits = (\<lambda>read i. [\<lparr>lv_is_leaf = True, lv_extended = False, lv_same_stmt = True,
                                 lv_empty = isl_bool_false\<rparr>]),
      pe_int_empty = (\<lambda>read. isl_bool_false)\<rparr>"

definition sample_arrays :: "autosa_local_array_info list" where
  "sample_arrays =
     [\<lparr>la_array_type = AUTOSA_EXT_ARRAY, la_io_groups = [sample_rar_group],
       la_drain_group = None, la_n_io_group_refs = 0\<rparr>]"

text \<open>A group with three levels and no tile at any of them.\<close>

definition sample_no_tile_group :: autosa_array_ref_group where
  "sample_no_tile_group =
     sample_rar_group\<lparr>io_buffers :=
       [\<lparr>buf_level = 1, buf_n_lane = 4, buf_tile = None\<rparr>,
        \<lparr>buf_level = 2, buf_n_lane = 4, buf_tile = None\<rparr>,
        \<lparr>buf_level = 3, buf_n_lane = 4, buf_tile = None\<rparr>]\<rparr>"

text \<open>
  A group with one I/O level whose buffer has packing width 1 and a tile whose innermost
  extent is 2147483648, one more than the largest \<^verbatim>\<open>int\<close>.
\<close>

definition sample_wide_group :: autosa_array_ref_group where
  "sample_wide_group =
     sample_rar_group\<lparr>grp_io_level := 1, io_buffers :=
       [\<lparr>buf_level = 1, buf_n_lane = 1,
          buf_tile = Some \<lparr>tile_depth = 3, tile_n = 1, tile_bound = [2147483648]\<rparr>\<rparr>]\<rparr>"

text \<open>
  An exterior-I/O group with two references, after its copy-in and copy-out module chains
  have been generated.
\<close>

definition sample_two_ref_group :: autosa_array_ref_group where
  "sample_two_ref_group =
     sample_rar_group\<lparr>array_name := ''B'', io_type := AUTOSA_EXT_IO,
       refs := [\<lparr>io_info = [\<lparr>info_io_type = AUTOSA_EXT_IO, info_dir = [0, 1],
                                 info_dep_type = AUTOSA_DEP_RAR\<rparr>]\<rparr>,
                \<lparr>io_info = [\<lparr>info_io_type = AUTOSA_EXT_IO, info_dir = [0, 1],
                                 info_dep_type = AUTOSA_DEP_RAR\<rparr>]\<rparr>],
       array_io_dir := IO_IN\<rparr>"

subsection \<open>Schedule constraints\<close>

text \<open>
  The sets and functions of isl that the four \<^verbatim>\<open>set_schedule\<close> functions build, by
  their meaning. A parameter valuation gives every parameter name an integer. A set with
  parameters (\<^verbatim>\<open>isl_union_set\<close>) is, for each valuation, a set of domain elements; a
  tuple of functions on the domain (\<^verbatim>\<open>isl_multi_union_pw_aff\<close>) gives, for each valuation
  and each element of its domain, a list of integers; a tuple of functions of the parameters
  alone (\<^verbatim>\<open>isl_multi_aff\<close> on a parameter space) gives a list of integers for each
  valuation. A null pointer is \<open>None\<close>.
\<close>

type_synonym valuation = "string \<Rightarrow> int"

type_synonym 'x isl_union_set = "valuation \<Rightarrow> 'x \<Rightarrow> bool"

type_synonym 'x isl_multi_union_pw_aff = "valuation \<Rightarrow> 'x \<Rightarrow> int list option"

type_synonym isl_multi_aff = "valuation \<Rightarrow> int list"

text \<open>
  A cursor on a band node: the number of band members, the partial schedule of the band,
  and the universe of the domain at the node.
\<close>

record 'x band_node =
  band_n_member :: int
  band_partial_schedule :: "'x isl_multi_union_pw_aff"
  universe_domain :: "'x \<Rightarrow> bool"

definition isl_multi_aff_zero :: "nat \<Rightarrow> isl_multi_aff" where
  "isl_multi_aff_zero k = (\<lambda>v. replicate k 0)"

definition isl_multi_union_pw_aff_multi_aff_on_domain ::
  "('x \<Rightarrow> bool) \<Rightarrow> isl_multi_aff \<Rightarrow> 'x isl_multi_union_pw_aff"
where
  "isl_multi_union_pw_aff_multi_aff_on_domain domain ma =
     (\<lambda>v x. if domain x then Some (ma v) else None)"

definition isl_multi_union_pw_aff_range_product ::
  "'x isl_multi_union_pw_aff \<Rightarrow> 'x isl_multi_union_pw_aff \<Rightarrow> 'x isl_multi_union_pw_aff"
where
  "isl_multi_union_pw_aff_range_product mupa1 mupa2 =
     (\<lambda>v x. case (mupa1 v x, mupa2 v x) of
               (Some a, Some b) \<Rightarrow> Some (a @ b)
             | _ \<Rightarrow> None)"

definition isl_multi_union_pw_aff_sub ::
  "'x isl_multi_union_pw_aff \<Rightarrow> 'x isl_multi_union_pw_aff \<Rightarrow> 'x isl_multi_union_pw_aff"
where
  "isl_multi_union_pw_aff_sub mupa1 mupa2 =
     (\<lambda>v x. case (mupa1 v x, mupa2 v x) of
               (Some a, Some b) \<Rightarrow> Some (map2 (\<lambda>s t. s - t) a b)
             | _ \<Rightarrow> None)"


definition isl_multi_union_pw_aff_nonneg_union_set ::
  "'x isl_multi_union_pw_aff \<Rightarrow> 'x isl_union_set"
where
  "isl_multi_union_pw_aff_nonneg_union_set mupa =
     (\<lambda>v x. case mupa v x of None \<Rightarrow> False | Some a \<Rightarrow> list_all (\<lambda>s. 0 \<le> s) a)"


text \<open>
  \<^verbatim>\<open>parameter_vector(space, names)\<close>: the parameters that are not yet in the space are
  added, and element \<open>i\<close> of the result is the parameter \<^verbatim>\<open>names[i]\<close>.
\<close>

definition parameter_vector :: "string list \<Rightarrow> isl_multi_aff" where
  "parameter_vector names = (\<lambda>v. map v names)"



text \<open>\<^verbatim>\<open>set_schedule_ge(node, names)\<close>: the difference schedule minus parameters is not negative.\<close>

definition set_schedule_ge ::
  "'x band_node option \<Rightarrow> string list \<Rightarrow> 'x isl_union_set option"
where
  "set_schedule_ge node names =
     (case node of
        None \<Rightarrow> None
      | Some node \<Rightarrow>
          let n = int (length names) in
          if n = 0 then Some (\<lambda>v. universe_domain node)
          else
            let n_zero = n - band_n_member node in
            if n_zero < 0 then None
            else
              let mupa = band_partial_schedule node;
                  ma = isl_multi_aff_zero (nat n_zero);
                  domain = universe_domain node;
                  mupa2 = isl_multi_union_pw_aff_multi_aff_on_domain domain ma;
                  mupa = isl_multi_union_pw_aff_range_product mupa2 mupa;
                  ma = parameter_vector names;
                  mupa2 = isl_multi_union_pw_aff_multi_aff_on_domain domain ma;
                  mupa = isl_multi_union_pw_aff_sub mupa mupa2
              in Some (isl_multi_union_pw_aff_nonneg_union_set mupa))"

text \<open>\<^verbatim>\<open>set_schedule_le(node, names)\<close>: the difference parameters minus schedule is not negative.\<close>

definition set_schedule_le ::
  "'x band_node option \<Rightarrow> string list \<Rightarrow> 'x isl_union_set option"
where
  "set_schedule_le node names =
     (case node of
        None \<Rightarrow> None
      | Some node \<Rightarrow>
          let n = int (length names) in
          if n = 0 then Some (\<lambda>v. universe_domain node)
          else
            let n_zero = n - band_n_member node in
            if n_zero < 0 then None
            else
              let mupa = band_partial_schedule node;
                  ma = isl_multi_aff_zero (nat n_zero);
                  domain = universe_domain node;
                  mupa2 = isl_multi_union_pw_aff_multi_aff_on_domain domain ma;
                  mupa = isl_multi_union_pw_aff_range_product mupa2 mupa;
                  ma = parameter_vector names;
                  mupa2 = isl_multi_union_pw_aff_multi_aff_on_domain domain ma;
                  mupa = isl_multi_union_pw_aff_sub mupa2 mupa
              in Some (isl_multi_union_pw_aff_nonneg_union_set mupa))"


text \<open>
  A band with one member over the integers, scheduled at its own value, and valuations
  with \<open>p1 = 3\<close> (\<open>sample_valuation\<close>), \<open>p0 = -1\<close> (\<open>sample_valuation_neg\<close>) or \<open>p0 = 1\<close>
  (\<open>sample_valuation_pos\<close>) and every other parameter zero.
\<close>

definition sample_band :: "int band_node" where
  "sample_band =
     \<lparr>band_n_member = 1, band_partial_schedule = (\<lambda>v x. Some [x]),
      universe_domain = (\<lambda>x. True)\<rparr>"


definition sample_valuation_neg :: valuation where
  "sample_valuation_neg = (\<lambda>name. if name = ''p0'' then - 1 else 0)"

definition sample_valuation_pos :: valuation where
  "sample_valuation_pos = (\<lambda>name. if name = ''p0'' then 1 else 0)"

subsection \<open>internal_group_in_out_overlap\<close>

text \<open>
  A relation or set of isl, at one valuation of the parameters, is a set of pairs or of
  elements; a null pointer is \<open>None\<close>, and every isl function returns null (or
  \<^verbatim>\<open>isl_bool_error\<close>) on a null argument. The universe of a union map or union set is
  the union of the universes of the spaces it has elements in; \<open>sp\<close> gives the space of
  an element.
\<close>

definition isl_union_map_is_empty :: "'a set option \<Rightarrow> isl_bool" where
  "isl_union_map_is_empty m =
     (case m of
        None \<Rightarrow> isl_bool_error
      | Some s \<Rightarrow> if s = {} then isl_bool_true else isl_bool_false)"

definition isl_union_map_intersect :: "'a set option \<Rightarrow> 'a set option \<Rightarrow> 'a set option" where
  "isl_union_map_intersect m1 m2 =
     (case (m1, m2) of (Some s1, Some s2) \<Rightarrow> Some (s1 \<inter> s2) | _ \<Rightarrow> None)"

definition isl_union_map_subtract :: "'a set option \<Rightarrow> 'a set option \<Rightarrow> 'a set option" where
  "isl_union_map_subtract m1 m2 =
     (case (m1, m2) of (Some s1, Some s2) \<Rightarrow> Some (s1 - s2) | _ \<Rightarrow> None)"

definition isl_union_map_apply_range ::
  "('a \<times> 'b) set option \<Rightarrow> ('b \<times> 'c) set option \<Rightarrow> ('a \<times> 'c) set option"
where
  "isl_union_map_apply_range m1 m2 =
     (case (m1, m2) of (Some s1, Some s2) \<Rightarrow> Some (s1 O s2) | _ \<Rightarrow> None)"

definition isl_union_map_reverse :: "('a \<times> 'b) set option \<Rightarrow> ('b \<times> 'a) set option" where
  "isl_union_map_reverse m = map_option converse m"

definition isl_union_map_domain :: "('a \<times> 'b) set option \<Rightarrow> 'a set option" where
  "isl_union_map_domain m = map_option Domain m"

definition isl_union_map_range :: "('a \<times> 'b) set option \<Rightarrow> 'b set option" where
  "isl_union_map_range m = map_option Range m"

definition isl_union_map_intersect_domain ::
  "('a \<times> 'b) set option \<Rightarrow> 'a set option \<Rightarrow> ('a \<times> 'b) set option"
where
  "isl_union_map_intersect_domain m d =
     (case (m, d) of (Some s, Some t) \<Rightarrow> Some {p \<in> s. fst p \<in> t} | _ \<Rightarrow> None)"

definition isl_union_map_intersect_range ::
  "('a \<times> 'b) set option \<Rightarrow> 'b set option \<Rightarrow> ('a \<times> 'b) set option"
where
  "isl_union_map_intersect_range m r =
     (case (m, r) of (Some s, Some t) \<Rightarrow> Some {p \<in> s. snd p \<in> t} | _ \<Rightarrow> None)"

text \<open>The context is a set of parameter values: at one valuation it holds or it does not.\<close>

definition isl_union_map_intersect_params ::
  "'a set option \<Rightarrow> bool option \<Rightarrow> 'a set option"
where
  "isl_union_map_intersect_params m context =
     (case (m, context) of (Some s, Some c) \<Rightarrow> Some (if c then s else {}) | _ \<Rightarrow> None)"

definition isl_union_map_universe :: "('a \<Rightarrow> 'sp) \<Rightarrow> 'a set option \<Rightarrow> 'a set option" where
  "isl_union_map_universe sp m = map_option (\<lambda>s. {x. sp x \<in> sp ` s}) m"

definition isl_union_map_free :: "'a set option \<Rightarrow> 'a set option" where
  "isl_union_map_free m = None"

text \<open>
  \<^verbatim>\<open>internal_group_in_out_overlap\<close>, from the relation \<^verbatim>\<open>overlap\<close> on. A tagged
  iteration is a pair of a statement instance and a reference; \<open>stmt\<close> gives the
  statement of an instance and \<open>arr\<close> the array of an array element. Computed by isl or
  by functions of other files, and taken as arguments: \<open>prefix\<close> (the prefix schedule on
  the tagged iterations), \<open>lt\<close> (the lexicographic successor at the array-partition
  dimension, after \<^verbatim>\<open>isl_map_lexmin\<close>), \<open>tagged_dep_flow\<close> and \<open>context\<close> (of the
  scop), \<open>access\<close> (the group's access relation after
  \<^verbatim>\<open>remove_local_accesses_group_flow\<close>), \<open>tagged\<close> (the tagged access relation of the
  group) and the function \<^verbatim>\<open>wrapped_reference_to_access\<close>.
\<close>

definition internal_group_in_out_overlap ::
  "('d \<Rightarrow> 'st) \<Rightarrow> ('e \<Rightarrow> 'ar)
     \<Rightarrow> (('d \<times> 'r) set option \<Rightarrow> (('d \<times> 'r) \<times> 'e) set option \<Rightarrow> ('d \<times> 'e) set option)
     \<Rightarrow> (('d \<times> 'r) \<times> 's) set option \<Rightarrow> ('s \<times> 's) set option
     \<Rightarrow> (('d \<times> 'r) \<times> ('d \<times> 'r)) set option \<Rightarrow> bool option
     \<Rightarrow> ('d \<times> 'e) set option \<Rightarrow> (('d \<times> 'r) \<times> 'e) set option \<Rightarrow> bool \<Rightarrow> isl_bool"
where
  "internal_group_in_out_overlap stmt arr wrapped_reference_to_access prefix lt tagged_dep_flow
       context access tagged read =
     (let domain = isl_union_map_domain tagged;
          overlap = isl_union_map_apply_range prefix lt;
          overlap = isl_union_map_apply_range overlap (isl_union_map_reverse prefix);
          overlap = isl_union_map_intersect overlap tagged_dep_flow;
          empty = isl_bool_val (isl_union_map_is_empty overlap);
          external = tagged_dep_flow;
          universe = isl_union_map_universe (\<lambda>(d, e). (stmt d, arr e)) access;
          access_domain = isl_union_map_domain universe;
          domain = isl_union_map_universe (\<lambda>(d, r). (stmt d, r)) domain;
          universe = domain;
          universe = isl_union_map_intersect_domain universe access_domain;
          domain = universe;
          external = (if read then isl_union_map_intersect_range external domain
                      else isl_union_map_intersect_domain external domain);
          external = isl_union_map_intersect_params external context;
          external = isl_union_map_subtract external overlap;
          tag_set = (if read then isl_union_map_range external
                     else isl_union_map_domain external);
          external = wrapped_reference_to_access tag_set tagged;
          external = (if empty < 0 then isl_union_map_free external
                      else if empty \<noteq> 0
                      then isl_union_map_universe (\<lambda>(d, e). (stmt d, arr e)) external
                      else external);
          access = isl_union_map_intersect access external;
          empty = isl_bool_val (isl_union_map_is_empty access)
      in if empty \<noteq> 0 then isl_bool_true else isl_bool_false)"

text \<open>
  \<^verbatim>\<open>wrapped_reference_to_access\<close> as the access relation restricted to a set of tagged
  iterations, for the sample below.
\<close>

definition sample_wrapped_reference_to_access ::
  "(nat \<times> nat) set option \<Rightarrow> ((nat \<times> nat) \<times> nat) set option \<Rightarrow> (nat \<times> nat) set option"
where
  "sample_wrapped_reference_to_access tag_set tagged =
     (case (tag_set, tagged) of
        (Some s, Some t) \<Rightarrow> Some {(fst (fst p), snd p) | p. p \<in> t \<and> fst p \<in> s}
      | _ \<Rightarrow> None)"

section \<open>Theorems\<close>

subsection \<open>Validity of a module\<close>

lemma scan_io_info_zero: "scan_io_info c g infos 0 = 0"
  by (induction infos) auto

lemma scan_io_info_one:
  "scan_io_info c g infos 1 =
     (if list_all (\<lambda>info. info_matches c g info \<longrightarrow> info_dep_type info = AUTOSA_DEP_RAR) infos
      then 1 else 0)"
  by (induction infos) (auto simp: info_matches_def)

lemma scan_refs_zero: "scan_refs c g rs 0 = 0"
  by (induction rs) (auto simp: scan_io_info_zero)

lemma scan_refs_one:
  "scan_refs c g rs 1 =
     (if list_all (\<lambda>ref. list_all (\<lambda>info. info_matches c g info
                                  \<longrightarrow> info_dep_type info = AUTOSA_DEP_RAR) (io_info ref)) rs
      then 1 else 0)"
  by (induction rs) (auto simp: scan_io_info_one scan_refs_zero)

text \<open>
  C1. A PE-local group is valid for both directions. For any other group whose matching
  \<^verbatim>\<open>io_info\<close> entries (same I/O type, equal direction vector) all have a read-after-read
  dependence, \<^verbatim>\<open>is_module_valid\<close> is true for read (copy-in) and false for write
  (copy-out), whatever the overlap analysis would return.
\<close>

theorem is_module_valid_pe_and_external:
  "(group_type g = AUTOSA_PE_GROUP \<longrightarrow> is_module_valid c ov g rd = isl_bool_true) \<and>
   (group_type g \<noteq> AUTOSA_PE_GROUP \<and> all_matching_rar c g \<longrightarrow>
      is_module_valid c ov g True = isl_bool_true \<and>
      is_module_valid c ov g False = isl_bool_false)"
  by (simp add: is_module_valid_def all_matching_rar_def scan_refs_one)

theorem is_module_valid_pe_and_external_witness:
  "is_module_valid sample_vec_cmp (\<lambda>_. isl_bool_error) sample_pe_group False = isl_bool_true \<and>
   is_module_valid sample_vec_cmp (\<lambda>_. isl_bool_error) sample_rar_group True = isl_bool_true \<and>
   is_module_valid sample_vec_cmp (\<lambda>_. isl_bool_error) sample_rar_group False = isl_bool_false"
proof -
  have pe: "group_type sample_pe_group = AUTOSA_PE_GROUP"
    by (simp add: sample_pe_group_def)
  have ext: "group_type sample_rar_group \<noteq> AUTOSA_PE_GROUP \<and>
             all_matching_rar sample_vec_cmp sample_rar_group"
    by (simp add: sample_rar_group_def all_matching_rar_def info_matches_def sample_vec_cmp_def)
  from pe ext
    is_module_valid_pe_and_external [of sample_pe_group sample_vec_cmp "\<lambda>_. isl_bool_error" False]
    is_module_valid_pe_and_external [of sample_rar_group sample_vec_cmp "\<lambda>_. isl_bool_error" False]
  show ?thesis by blast
qed

subsection \<open>The reordering of the modules\<close>

lemma copy_modules_fits:
  "pos + length (filter sel ms) \<le> length arr \<Longrightarrow>
   copy_modules sel ms (arr, pos) =
     Inr (take pos arr @ map Some (filter sel ms) @ drop (pos + length (filter sel ms)) arr,
          pos + length (filter sel ms))"
proof (induction ms arbitrary: arr pos)
  case Nil
  then show ?case by simp
next
  case (Cons m ms)
  show ?case
  proof (cases "sel m")
    case True
    with Cons.prems have lt: "pos < length arr" by simp
    from True Cons.prems
    have fits: "Suc pos + length (filter sel ms) \<le> length (arr[pos := Some m])" by simp
    have tk: "take (Suc pos) (arr[pos := Some m]) = take pos arr @ [Some m]"
      using lt by (simp add: take_Suc_conv_app_nth)
    show ?thesis
      using True lt Cons.IH [OF fits] tk by simp
  next
    case False
    with Cons show ?thesis by simp
  qed
qed

lemma copy_modules_overflow:
  "pos \<le> length arr \<Longrightarrow> length arr < pos + length (filter sel ms) \<Longrightarrow>
   copy_modules sel ms (arr, pos) = Inl OutOfBounds"
proof (induction ms arbitrary: arr pos)
  case Nil
  then show ?case by simp
next
  case (Cons m ms)
  show ?case
  proof (cases "sel m")
    case True
    show ?thesis
    proof (cases "pos < length arr")
      case lt: True
      have "copy_modules sel ms (arr[pos := Some m], Suc pos) = Inl OutOfBounds"
        using Cons.prems True lt by (intro Cons.IH) simp_all
      with True lt show ?thesis by simp
    next
      case False
      with True show ?thesis by simp
    qed
  next
    case False
    with Cons show ?thesis by simp
  qed
qed

lemma copy_modules_prefix:
  assumes "pos = length xs"
  shows "copy_modules sel ms (map Some xs @ replicate k None, pos) =
     (if length (filter sel ms) \<le> k
      then Inr (map Some (xs @ filter sel ms) @ replicate (k - length (filter sel ms)) None,
                pos + length (filter sel ms))
      else Inl OutOfBounds)"
proof (cases "length (filter sel ms) \<le> k")
  case True
  then show ?thesis
    using assms by (simp add: copy_modules_fits)
next
  case False
  then show ?thesis
    using assms by (simp add: copy_modules_overflow)
qed

lemma store_prefix:
  "0 < k \<Longrightarrow> (map Some xs @ replicate k None)[length xs := Some m] =
     map Some (xs @ [m]) @ replicate (k - 1) None"
  by (cases k) (simp_all add: list_update_append)

lemma hw_module_reorder_eq:
  "hw_module_reorder ms =
     (case ms of
        [] \<Rightarrow> Inl OutOfBounds
      | m0 # rest \<Rightarrow>
          if length (filter is_copy_in ms) + 1 + length (filter is_copy_out ms)
               + length (filter is_drain ms) \<le> length ms
          then Inr (map Some (filter is_copy_in ms @ [m0] @ filter is_copy_out ms
                              @ filter is_drain ms)
                    @ replicate (length ms - (length (filter is_copy_in ms) + 1
                                   + length (filter is_copy_out ms)
                                   + length (filter is_drain ms))) None)
          else Inl OutOfBounds)"
proof (cases ms)
  case Nil
  then show ?thesis by (simp add: hw_module_reorder_def)
next
  case (Cons m0 rest)
  define A where "A = filter is_copy_in ms"
  define B where "B = filter is_copy_out ms"
  define D where "D = filter is_drain ms"
  define n where "n = length ms"
  have sel: "(\<lambda>module. mod_type module = IO_MODULE \<and> mod_in module) = is_copy_in"
    "(\<lambda>module. mod_type module = IO_MODULE \<and> \<not> mod_in module) = is_copy_out"
    "(\<lambda>module. mod_type module = DRAIN_MODULE) = is_drain"
    by (auto simp: is_copy_in_def is_copy_out_def is_drain_def fun_eq_iff)
  have cs: "\<And>(G :: error + autosa_hw_module option list) F.
      (case ms of [] \<Rightarrow> G | x # xs \<Rightarrow> F x) = F m0"
    using Cons by simp
  have aln: "length A \<le> n" by (simp add: A_def n_def)
  have step1: "copy_modules is_copy_in ms (replicate n None, 0) =
       Inr (map Some A @ replicate (n - length A) None, length A)"
    using copy_modules_prefix [of 0 "[]" is_copy_in ms n] aln by (simp add: A_def)
  have unf: "hw_module_reorder ms =
      (if length A < n then
         (case copy_modules is_copy_out ms
                 ((map Some A @ replicate (n - length A) None)[length A := Some m0],
                  length A + 1) of
            Inl e \<Rightarrow> Inl e
          | Inr st \<Rightarrow>
              (case copy_modules is_drain ms st of
                 Inl e \<Rightarrow> Inl e
               | Inr (modules_new, pos) \<Rightarrow> Inr modules_new))
       else Inl OutOfBounds)"
    unfolding hw_module_reorder_def sel Let_def cs n_def [symmetric] step1
    by simp
  have main: "hw_module_reorder ms =
      (if length A + 1 + length B + length D \<le> n
       then Inr (map Some (A @ [m0] @ B @ D)
                 @ replicate (n - (length A + 1 + length B + length D)) None)
       else Inl OutOfBounds)"
  proof (cases "length A < n")
    case False
    then show ?thesis
      unfolding unf by simp
  next
    case lt: True
    define k1 where "k1 = n - length A - 1"
    have st: "(map Some A @ replicate (n - length A) None)[length A := Some m0] =
        map Some (A @ [m0]) @ replicate k1 None"
      unfolding k1_def using lt by (intro store_prefix) simp
    have step2: "copy_modules is_copy_out ms
        (map Some (A @ [m0]) @ replicate k1 None, length A + 1) =
        (if length B \<le> k1
         then Inr (map Some ((A @ [m0]) @ B) @ replicate (k1 - length B) None,
                   length A + 1 + length B)
         else Inl OutOfBounds)"
      unfolding B_def by (rule copy_modules_prefix) simp
    have step3: "copy_modules is_drain ms
        (map Some ((A @ [m0]) @ B) @ replicate (k1 - length B) None,
                   length A + 1 + length B) =
        (if length D \<le> k1 - length B
         then Inr (map Some (((A @ [m0]) @ B) @ D) @ replicate (k1 - length B - length D) None,
                   length A + 1 + length B + length D)
         else Inl OutOfBounds)"
      unfolding D_def by (rule copy_modules_prefix) simp
    show ?thesis
    proof (cases "length B \<le> k1")
      case False
      from step2 False have s2: "copy_modules is_copy_out ms
          (map Some (A @ [m0]) @ replicate k1 None, length A + 1) = Inl OutOfBounds"
        by (simp only: if_False)
      have "hw_module_reorder ms = Inl OutOfBounds"
        by (simp only: unf lt if_True st s2 sum.case)
      moreover have "\<not> length A + 1 + length B + length D \<le> n"
        using False lt by (simp add: k1_def)
      ultimately show ?thesis by (simp only: if_False)
    next
      case b: True
      from step2 b have s2: "copy_modules is_copy_out ms
          (map Some (A @ [m0]) @ replicate k1 None, length A + 1) =
          Inr (map Some ((A @ [m0]) @ B) @ replicate (k1 - length B) None,
                   length A + 1 + length B)"
        by (simp only: if_True)
      show ?thesis
      proof (cases "length D \<le> k1 - length B")
        case False
        from step3 False have s3: "copy_modules is_drain ms
            (map Some ((A @ [m0]) @ B) @ replicate (k1 - length B) None,
                   length A + 1 + length B) = Inl OutOfBounds"
          by (simp only: if_False)
        have "hw_module_reorder ms = Inl OutOfBounds"
          by (simp only: unf lt if_True st s2 s3 sum.case)
        moreover have "\<not> length A + 1 + length B + length D \<le> n"
          using False lt b by (simp add: k1_def)
        ultimately show ?thesis by (simp only: if_False)
      next
        case True
        from step3 True have s3: "copy_modules is_drain ms
            (map Some ((A @ [m0]) @ B) @ replicate (k1 - length B) None,
                   length A + 1 + length B) =
            Inr (map Some (((A @ [m0]) @ B) @ D) @ replicate (k1 - length B - length D) None,
                   length A + 1 + length B + length D)"
          by (simp only: if_True)
        have "hw_module_reorder ms =
            Inr (map Some (((A @ [m0]) @ B) @ D) @ replicate (k1 - length B - length D) None)"
          by (simp only: unf lt if_True st s2 s3 sum.case prod.case)
        moreover have "length A + 1 + length B + length D \<le> n"
          using True lt b by (simp add: k1_def)
        moreover have "k1 - length B - length D = n - (length A + 1 + length B + length D)"
          by (simp add: k1_def)
        ultimately show ?thesis by simp
      qed
    qed
  qed
  then show ?thesis
    using Cons by (simp add: A_def B_def D_def n_def)
qed

subsection \<open>The chain of I/O modules of a group\<close>

lemma inter_copy_Inr:
  "inter_copy env m buf pos p = Inr (m', s) \<Longrightarrow>
   m' = m\<lparr>data_pack_inter := buf_n_lane buf, data_pack_intra := buf_n_lane buf\<rparr>"
  by (auto simp: inter_copy_def split: option.splits sum.splits)

lemma intra_copy_Inr:
  "intra_copy env m g cb pos p = Inr (m', s) \<Longrightarrow> \<exists>x. m' = m\<lparr>data_pack_intra := x\<rparr>"
  by (auto simp: intra_copy_def Let_def split: option.splits sum.splits if_splits)

lemma default_schedule_Inr:
  assumes "generate_default_io_module_schedule env m g l sd f b rd bnd = Inr (m', stmts)"
  shows "(\<not> bnd \<longrightarrow> filled g l f rd m') \<and>
         (bnd \<longrightarrow> filled g' l' f' rd' m \<longrightarrow> filled g' l' f' rd' m')"
  using assms
  unfolding generate_default_io_module_schedule_def Let_def
  by (auto simp: filled_def module_kind_def split: option.splits sum.splits if_splits
      dest!: inter_copy_Inr intra_copy_Inr)

lemma default_module_Inr:
  assumes "generate_default_io_module env m g l sd f b rd = Inr (m', stmts)"
  shows "filled g l f rd m'"
  using assms unfolding generate_default_io_module_def
  by (auto split: sum.splits if_splits dest!: default_schedule_Inr simp: filled_def)

lemma inter_trans_Inr:
  "generate_io_module_inter_trans env m g l sd rd bnd = Inr (m', s) \<Longrightarrow>
   \<exists>x. m' = m\<lparr>data_pack_inter := x, data_pack_intra := x\<rparr>"
  unfolding generate_io_module_inter_trans_def Let_def
  by (auto split: option.splits sum.splits if_splits dest!: inter_copy_Inr)

lemma intra_trans_Inr:
  "generate_io_module_intra_trans env m g l sd rd b = Inr (m', s) \<Longrightarrow>
   \<exists>x. m' = m\<lparr>data_pack_intra := x\<rparr>"
  unfolding generate_io_module_intra_trans_def Let_def
  by (auto split: option.splits sum.splits if_splits dest!: intra_copy_Inr)

lemma outer_Inr:
  "generate_io_module_outer m g l sd rd bnd = Inr m' \<Longrightarrow>
   (\<not> bnd \<longrightarrow> filled g l True rd m') \<and> (bnd \<longrightarrow> m' = m)"
  unfolding generate_io_module_outer_def
  by (auto simp: filled_def module_kind_def split: option.splits sum.splits if_splits)

lemma filled_boundary [simp]: "filled g l f rd (m\<lparr>mod_boundary := x\<rparr>) = filled g l f rd m"
  by (simp add: filled_def)

lemma filter_buffer_Inr:
  assumes "generate_filter_buffer_io_module opts env m g l sd f b rd = Inr (m', s)" and "f"
  shows "filled g l f rd m'"
proof -
  from assms obtain m3 m4 where
    "generate_io_module_outer m3 g l sd rd False = Inr m4"
    "generate_io_module_outer (m4\<lparr>mod_boundary := True\<rparr>) g l sd rd True = Inr m'"
    unfolding generate_filter_buffer_io_module_def Let_def
    by (auto split: sum.splits if_splits)
  then show ?thesis
    using \<open>f\<close> by (auto dest!: outer_Inr)
qed

lemma by_type_Inr:
  "generate_io_module_by_type opts env m g l sd f b rd = Inr (m', s) \<Longrightarrow> filled g l f rd m'"
  unfolding generate_io_module_by_type_def
  by (auto split: if_splits dest: filter_buffer_Inr default_module_Inr)

lemma gen_level_Inr:
  assumes "io_module_gen_level opts env alloc g rd credit i (n, ms) = Inr (n', ms')"
  shows "\<exists>new. ms' = ms @ new \<and>
           map mod_level new = (if innermost g \<le> i \<and> i \<le> grp_io_level g then [i] else []) \<and>
           list_all (generated g rd) new"
  using assms unfolding io_module_gen_level_def Let_def
  by (auto simp: innermost_def generated_def filled_def
           split: if_splits option.splits sum.splits dest!: by_type_Inr)

lemma gen_levels_Inr:
  assumes "io_module_gen_levels opts env alloc g rd credit levels (n, ms) = Inr (n', ms')"
  shows "\<exists>new. ms' = ms @ new \<and>
           map mod_level new = filter (\<lambda>i. innermost g \<le> i \<and> i \<le> grp_io_level g) levels \<and>
           list_all (generated g rd) new"
  using assms
proof (induction levels arbitrary: n ms)
  case Nil
  then show ?case by simp
next
  case (Cons i levels)
  from Cons.prems obtain n1 ms1 where
    one: "io_module_gen_level opts env alloc g rd credit i (n, ms) = Inr (n1, ms1)" and
    rest: "io_module_gen_levels opts env alloc g rd credit levels (n1, ms1) = Inr (n', ms')"
    by (auto split: sum.splits)
  from gen_level_Inr [OF one] obtain new1 where
    n1: "ms1 = ms @ new1"
        "map mod_level new1 = (if innermost g \<le> i \<and> i \<le> grp_io_level g then [i] else [])"
        "list_all (generated g rd) new1"
    by blast
  from Cons.IH [OF rest] obtain new2 where
    n2: "ms' = ms1 @ new2"
        "map mod_level new2 = filter (\<lambda>i. innermost g \<le> i \<and> i \<le> grp_io_level g) levels"
        "list_all (generated g rd) new2"
    by blast
  show ?case
    by (rule exI [of _ "new1 @ new2"]) (use n1 n2 in \<open>simp split: if_splits\<close>)
qed

lemma filter_levels_up:
  "filter (\<lambda>i. innermost g \<le> i \<and> i \<le> l) [1..l] = [innermost g..l]"
proof -
  have "filter (\<lambda>i. innermost g \<le> i \<and> i \<le> l) [1..l] = filter (\<lambda>i. innermost g \<le> i) [1..l]"
    by (rule filter_cong) auto
  also have "\<dots> = [innermost g..l]"
  proof (cases "io_type g = AUTOSA_INT_IO")
    case True
    then have "innermost g = 1" by (simp add: innermost_def)
    then show ?thesis by (simp cong: filter_cong)
  next
    case False
    then have i2: "innermost g = 2" by (simp add: innermost_def)
    show ?thesis
    proof (cases "1 \<le> l")
      case True
      then have "[1..l] = 1 # [2..l]" by (simp add: upto_rec1)
      then show ?thesis using i2 by (simp cong: filter_cong)
    next
      case False
      then show ?thesis using i2 by simp
    qed
  qed
  finally show ?thesis .
qed

lemma filter_levels_down:
  "filter (\<lambda>i. innermost g \<le> i \<and> i \<le> l) (rev [1..l]) = rev [innermost g..l]"
  by (simp add: filter_levels_up flip: rev_filter)

lemma scan_io_info_dir [simp]:
  "scan_io_info c (g\<lparr>array_io_dir := d\<rparr>) infos e = scan_io_info c g infos e"
  by (induction infos arbitrary: e) auto

lemma scan_refs_dir [simp]:
  "scan_refs c (g\<lparr>array_io_dir := d\<rparr>) rs e = scan_refs c g rs e"
  by (induction rs arbitrary: e) auto

lemma is_module_valid_dir [simp]:
  "is_module_valid c ov (g\<lparr>array_io_dir := d\<rparr>) rd = is_module_valid c ov g rd"
  by (simp add: is_module_valid_def)

lemma generated_dir [simp]: "generated (g\<lparr>array_io_dir := d\<rparr>) rd = generated g rd"
  by (simp add: generated_def filled_def module_kind_def fun_eq_iff)

lemma innermost_dir [simp]: "innermost (g\<lparr>array_io_dir := d\<rparr>) = innermost g"
  by (simp add: innermost_def)

lemma copy_in_Inr:
  assumes "sa_io_module_gen_copy_in c opts env alloc g credit n inp = Inr (ga, na, ins)"
  shows "(ga = g \<or> (\<exists>d. ga = g\<lparr>array_io_dir := d\<rparr>)) \<and>
         map mod_level ins =
           (if inp \<and> valid_dir c env g True then rev [innermost g..grp_io_level g] else []) \<and>
         list_all (generated g True) ins"
proof (cases "inp \<and> valid_dir c env g True")
  case True
  define g1 where "g1 = g\<lparr>array_io_dir := (if array_io_dir g = IO_OUT then IO_INOUT else IO_IN)\<rparr>"
  from True assms have ga: "ga = g1" and
    "io_module_gen_levels opts env alloc g1 True credit (rev [1..grp_io_level g1]) (n, [])
       = Inr (na, ins)"
    unfolding sa_io_module_gen_copy_in_def valid_dir_def g1_def Let_def
    by (auto split: sum.splits)
  from gen_levels_Inr [OF this(2)] True ga show ?thesis
    by (auto simp: g1_def filter_levels_down)
next
  case False
  with assms show ?thesis
    unfolding sa_io_module_gen_copy_in_def valid_dir_def by auto
qed

lemma copy_out_Inr:
  assumes "sa_io_module_gen_copy_out c opts env alloc g credit (n, ins) outp = Inr (g', n', ms)"
  shows "\<exists>outs. ms = ins @ outs \<and>
         map mod_level outs =
           (if outp \<and> valid_dir c env g False then [innermost g..grp_io_level g] else []) \<and>
         list_all (generated g False) outs"
proof (cases "outp \<and> valid_dir c env g False")
  case True
  define g1 where "g1 = g\<lparr>array_io_dir := (if array_io_dir g = IO_IN then IO_INOUT else IO_OUT)\<rparr>"
  from True assms have
    "io_module_gen_levels opts env alloc g1 False credit [1..grp_io_level g1] (n, ins)
       = Inr (n', ms)"
    unfolding sa_io_module_gen_copy_out_def valid_dir_def g1_def Let_def
    by (auto split: sum.splits)
  from gen_levels_Inr [OF this] True show ?thesis
    by (auto simp: g1_def filter_levels_up)
next
  case False
  with assms show ?thesis
    unfolding sa_io_module_gen_copy_out_def valid_dir_def by auto
qed

lemma valid_dir_dir [simp]: "valid_dir c env (g\<lparr>array_io_dir := d\<rparr>) rd = valid_dir c env g rd"
  by (simp add: valid_dir_def)

lemma sa_io_module_gen_Inr:
  assumes "sa_io_module_gen c opts env alloc g n inp outp = Inr (g', n', ms)"
  shows "\<exists>ins outs. ms = ins @ outs \<and>
           map mod_level ins =
             (if inp \<and> valid_dir c env g True then rev [innermost g..grp_io_level g] else []) \<and>
           list_all (generated g True) ins \<and>
           map mod_level outs =
             (if outp \<and> valid_dir c env g False then [innermost g..grp_io_level g] else []) \<and>
           list_all (generated g False) outs"
proof -
  from assms obtain credit ga na ins where
    first: "sa_io_module_gen_copy_in c opts env alloc g credit n inp = Inr (ga, na, ins)" and
    second: "sa_io_module_gen_copy_out c opts env alloc ga credit (na, ins) outp
               = Inr (g', n', ms)"
    unfolding sa_io_module_gen_def Let_def
    by (auto split: sum.splits)
  from copy_in_Inr [OF first] have ga: "ga = g \<or> (\<exists>d. ga = g\<lparr>array_io_dir := d\<rparr>)"
    and ins: "map mod_level ins =
        (if inp \<and> valid_dir c env g True then rev [innermost g..grp_io_level g] else [])"
      "list_all (generated g True) ins"
    by blast+
  from ga have same: "valid_dir c env ga False = valid_dir c env g False"
    "innermost ga = innermost g" "grp_io_level ga = grp_io_level g"
    "generated ga False = generated g False"
    by auto
  from copy_out_Inr [OF second] obtain outs where
    "ms = ins @ outs"
    "map mod_level outs =
       (if outp \<and> valid_dir c env g False then [innermost g..grp_io_level g] else [])"
    "list_all (generated g False) outs"
    unfolding same by blast
  with ins show ?thesis by blast
qed

subsection \<open>The module list of generate_hw_modules\<close>

lemma generated_io_or_drain: "generated g rd m \<Longrightarrow> io_or_drain m"
  by (simp add: generated_def filled_def module_kind_def io_or_drain_def)

lemma sa_io_module_gen_io_or_drain:
  assumes "sa_io_module_gen c opts env alloc g n inp outp = Inr (g', n', ms)"
  shows "list_all io_or_drain ms"
proof -
  from sa_io_module_gen_Inr [OF assms] obtain ins outs where
    "ms = ins @ outs" "list_all (generated g True) ins" "list_all (generated g False) outs"
    by blast
  then show ?thesis
    by (auto simp: list_all_iff dest: generated_io_or_drain)
qed

lemma gen_io_groups_io_or_drain:
  assumes "gen_io_groups c opts env alloc gs (n, ms) = Inr (gs', n', ms')"
    and "list_all io_or_drain ms"
  shows "list_all io_or_drain ms'"
  using assms
proof (induction gs arbitrary: n ms gs')
  case Nil
  then show ?case by simp
next
  case (Cons g gs)
  from Cons.prems(1) obtain g1 n1 new gs1 where
    one: "sa_io_module_gen c opts (env (group_id g)) alloc g n True True = Inr (g1, n1, new)" and
    rest: "gen_io_groups c opts env alloc gs (n1, ms @ new) = Inr (gs1, n', ms')"
    by (auto split: sum.splits)
  from sa_io_module_gen_io_or_drain [OF one] Cons.prems(2)
  have "list_all io_or_drain (ms @ new)" by simp
  from Cons.IH [OF rest this] show ?case .
qed

lemma gen_io_arrays_io_or_drain:
  assumes "gen_io_arrays c opts env alloc arrays ms = Inr (arrays', ms')"
    and "list_all io_or_drain ms"
  shows "list_all io_or_drain ms'"
  using assms
proof (induction arrays arbitrary: ms arrays')
  case Nil
  then show ?case by simp
next
  case (Cons a as)
  from Cons.prems(1) obtain gs1 n1 ms1 as1 where
    one: "gen_io_groups c opts env alloc (la_io_groups a) (0, ms) = Inr (gs1, n1, ms1)" and
    rest: "gen_io_arrays c opts env alloc as ms1 = Inr (as1, ms')"
    by (auto split: sum.splits)
  from gen_io_groups_io_or_drain [OF one Cons.prems(2)] Cons.IH [OF rest]
  show ?case by blast
qed

lemma gen_drain_arrays_io_or_drain:
  assumes "gen_drain_arrays c opts env alloc arrays ms = Inr (arrays', ms')"
    and "list_all io_or_drain ms"
  shows "list_all io_or_drain ms'"
  using assms
proof (induction arrays arbitrary: ms arrays')
  case Nil
  then show ?case by simp
next
  case (Cons a as)
  show ?case
  proof (cases "la_drain_group a")
    case None
    with Cons.prems(1) obtain as1 where
      "gen_drain_arrays c opts env alloc as ms = Inr (as1, ms')"
      by (auto split: sum.splits)
    from Cons.IH [OF this Cons.prems(2)] show ?thesis .
  next
    case (Some d)
    with Cons.prems(1) obtain d1 n1 new as1 where
      one: "sa_io_module_gen c opts (env (group_id d)) alloc d (la_n_io_group_refs a)
              False True = Inr (d1, n1, new)" and
      rest: "gen_drain_arrays c opts env alloc as (ms @ new) = Inr (as1, ms')"
      by (auto split: sum.splits)
    from sa_io_module_gen_io_or_drain [OF one] Cons.prems(2)
    have "list_all io_or_drain (ms @ new)" by simp
    from Cons.IH [OF rest this] show ?thesis .
  qed
qed

lemma sa_pe_module_gen_type: "mod_type (snd (sa_pe_module_gen penv alloc arrays)) = PE_MODULE"
  by (simp add: sa_pe_module_gen_def Let_def split: prod.splits)

lemma hw_modules_before_reorder_pe_first:
  assumes "hw_modules_before_reorder c opts env penv alloc arrays = Inr (arrays', ms)"
  shows "pe_first ms"
proof -
  from assms obtain a1 ms1 a2 ms2 where
    io: "gen_io_arrays c opts env alloc arrays [] = Inr (a1, ms1)" and
    dr: "gen_drain_arrays c opts env alloc a1 ms1 = Inr (a2, ms2)" and
    ms: "ms = snd (sa_pe_module_gen penv alloc a2) # ms2"
    unfolding hw_modules_before_reorder_def
    by (auto split: sum.splits prod.splits)
  from gen_io_arrays_io_or_drain [OF io] have "list_all io_or_drain ms1" by simp
  from gen_drain_arrays_io_or_drain [OF dr this] have "list_all io_or_drain ms2" .
  then show ?thesis
    unfolding ms pe_first_def
    by (simp add: sa_pe_module_gen_type io_or_drain_def [abs_def])
qed

lemma filter_lengths:
  "length (filter is_copy_in ms) + length (filter is_copy_out ms) + length (filter is_drain ms)
     = length (filter io_or_drain ms)"
  by (induction ms) (auto simp: is_copy_in_def is_copy_out_def is_drain_def io_or_drain_def)

lemma filter_msets:
  "mset (filter is_copy_in ms) + mset (filter is_copy_out ms) + mset (filter is_drain ms)
     = mset (filter io_or_drain ms)"
  by (induction ms) (auto simp: is_copy_in_def is_copy_out_def is_drain_def io_or_drain_def)

lemma hw_module_reorder_final_order:
  assumes "pe_first ms"
  shows "hw_module_reorder ms = Inr (map Some (final_order ms))"
proof -
  from assms obtain pe rest where ms: "ms = pe # rest" and pe: "mod_type pe = PE_MODULE"
    and rest: "list_all io_or_drain rest"
    by (cases ms) (simp_all add: pe_first_def io_or_drain_def [abs_def])
  have npe: "\<not> is_copy_in pe" "\<not> is_copy_out pe" "\<not> is_drain pe"
    using pe by (simp_all add: is_copy_in_def is_copy_out_def is_drain_def)
  have "filter io_or_drain rest = rest"
    using rest by (simp add: list_all_iff)
  then have len: "length (filter is_copy_in rest) + length (filter is_copy_out rest)
      + length (filter is_drain rest) = length rest"
    by (simp add: filter_lengths)
  show ?thesis
    unfolding hw_module_reorder_eq ms using npe len
    by (simp add: final_order_def)
qed

subsection \<open>Three levels with two-level buffering\<close>

lemma upto_1_3: "[1..(3::int)] = [1, 2, 3]"
  by (simp add: upto.simps)

lemma coalesce_wf:
  "wf_tile t \<Longrightarrow> lanes \<noteq> 0 \<Longrightarrow>
   coalesce d lanes t =
     Inr (if c_int ((tile_bound t ! nat (tile_n t - 1)) sdiv lanes) \<le> 1 then - 1
          else d + tile_n t - 1,
          c_int ((tile_bound t ! nat (tile_n t - 1)) sdiv lanes))"
  by (simp add: coalesce_def wf_tile_def Let_def)

lemma find_buffer_3:
  assumes "buf_tile b1 = Some t1" "buf_tile b2 = None" "buf_tile b3 = Some t3"
  shows "find_buffer [b1, b2, b3] 3 x = Inr (3, Some b3)"
    "find_buffer [b1, b2, b3] 2 x = Inr (1, Some b1)"
    "find_buffer [b1, b2, b3] 1 x = Inr (1, Some b1)"
    "find_buffer [b1, b2, b3] 0 x = Inr (0, x)"
  using assms by (simp_all add: find_buffer_def eval_nat_numeral)

lemma three_level_scenario:
  assumes g: "group_type g = AUTOSA_IO_GROUP" "array_type g = AUTOSA_EXT_ARRAY"
      "io_type g = AUTOSA_INT_IO" "grp_io_level g = 3" "io_buffers g = [b1, b2, b3]"
    and b: "buf_tile b1 = Some t1" "buf_tile b2 = None" "buf_tile b3 = Some t3"
      "buf_level b1 = 1" "buf_level b3 = 3" "buf_n_lane b1 \<noteq> 0" "buf_n_lane b3 \<noteq> 0"
    and t: "wf_tile t1" "wf_tile t3"
    and o: "opt_two_level_buffer opts"
    and v: "valid_dir c env g True"
  shows "\<exists>g' n' m3 m2 m1.
      sa_io_module_gen c opts env alloc g n True False = Inr (g', n', [m3, m2, m1]) \<and>
      mod_level m3 = 3 \<and> mod_is_buffer m3 \<and> \<not> mod_is_filter m3 \<and>
      mod_level m2 = 2 \<and> \<not> mod_is_buffer m2 \<and> mod_is_filter m2 \<and>
      mod_level m1 = 1 \<and> mod_is_buffer m1 \<and> mod_is_filter m1"
proof -
  note fb = find_buffer_3 [OF b(1-3)]
  show ?thesis
    using v unfolding valid_dir_def sa_io_module_gen_def sa_io_module_gen_copy_in_def
      sa_io_module_gen_copy_out_def
    by (simp add: g b t o fb upto_1_3 io_module_gen_level_def classify_copy_in_def
        generate_io_module_by_type_def generate_default_io_module_def
        generate_default_io_module_schedule_def generate_filter_buffer_io_module_def
        generate_io_module_inter_trans_def generate_io_module_intra_trans_def
        generate_io_module_outer_def inter_copy_def intra_copy_def coalesce_wf Let_def)
qed

subsection \<open>The reordering as a permutation\<close>

lemma reorder_perm_imp_pe_first:
  assumes r: "hw_module_reorder ms = Inr out" and p: "mset out = mset (map Some ms)"
  shows "pe_first ms"
proof -
  define A where "A = filter is_copy_in ms"
  define B where "B = filter is_copy_out ms"
  define D where "D = filter is_drain ms"
  from r obtain m0 rest where ms: "ms = m0 # rest"
    by (cases ms) (simp_all add: hw_module_reorder_eq)
  from r have out: "out = map Some (A @ [m0] @ B @ D)
      @ replicate (length ms - (length A + 1 + length B + length D)) None"
    and le: "length A + 1 + length B + length D \<le> length ms"
    unfolding hw_module_reorder_eq A_def B_def D_def ms
    by (simp_all split: if_splits)
  from p have "set out = set (map Some ms)"
    by (rule mset_eq_setD)
  then have "None \<notin> set out"
    by auto
  with out have k: "length ms - (length A + 1 + length B + length D) = 0"
    by (cases "length ms - (length A + 1 + length B + length D)") auto
  with out have "mset (map Some (A @ [m0] @ B @ D)) = mset (map Some ms)"
    using p by simp
  then have "mset (map the (map Some (A @ [m0] @ B @ D))) = mset (map the (map Some ms))"
    by (metis mset_map)
  then have "mset (A @ [m0] @ B @ D) = mset ms"
    by (simp add: comp_def)
  then have e1: "mset (filter io_or_drain ms) + {#m0#} = mset ms"
    using filter_msets [of ms] by (simp add: A_def B_def D_def ac_simps)
  have e2: "mset ms = mset (filter io_or_drain ms) + mset (filter (\<lambda>m. \<not> io_or_drain m) ms)"
    by (induction ms) auto
  from e1 e2 have "mset (filter io_or_drain ms) + {#m0#} =
      mset (filter io_or_drain ms) + mset (filter (\<lambda>m. \<not> io_or_drain m) ms)"
    by (rule trans)
  then have one: "mset (filter (\<lambda>m. \<not> io_or_drain m) ms) = {#m0#}"
    by (metis add_left_cancel)
  then have "m0 \<in> set (filter (\<lambda>m. \<not> io_or_drain m) ms)"
    by (metis mset_eq_setD multi_member_last set_mset_mset)
  then have pe0: "\<not> io_or_drain m0" by simp
  with one have "mset (filter (\<lambda>m. \<not> io_or_drain m) rest) = {#}"
    by (simp add: ms)
  then have "filter (\<lambda>m. \<not> io_or_drain m) rest = []" by simp
  then have "list_all io_or_drain rest"
    by (simp add: list_all_iff filter_empty_conv)
  moreover from pe0 have "mod_type m0 = PE_MODULE"
    by (cases "mod_type m0") (simp_all add: io_or_drain_def)
  ultimately show ?thesis
    by (simp add: ms pe_first_def io_or_drain_def [abs_def])
qed

lemma final_order_mset:
  assumes "pe_first ms"
  shows "mset (final_order ms) = mset ms"
proof -
  from assms obtain pe rest where ms: "ms = pe # rest"
    and rest: "list_all io_or_drain rest"
    by (cases ms) (simp_all add: pe_first_def io_or_drain_def [abs_def])
  have "filter io_or_drain rest = rest"
    using rest by (simp add: list_all_iff)
  with filter_msets [of rest] show ?thesis
    by (simp add: final_order_def ms ac_simps)
qed

text \<open>
  C10. \<^verbatim>\<open>hw_module_reorder\<close> puts \<^verbatim>\<open>modules[0]\<close> at the PE position and its scans
  select I/O and drain modules only, so its output is a permutation of its input (every
  slot filled, every module exactly once) if and only if the first element is the only
  PE module and every other element is an I/O or drain module; the list that
  \<^verbatim>\<open>generate_hw_modules\<close> hands to the reorder has this shape.
\<close>

theorem hw_module_reorder_permutation_iff:
  "((\<exists>out. hw_module_reorder ms = Inr out \<and> mset out = mset (map Some ms)) \<longleftrightarrow> pe_first ms) \<and>
   (hw_modules_before_reorder c opts env penv alloc arrays = Inr (arrays', generated_modules)
      \<longrightarrow> pe_first generated_modules)"
proof (intro conjI iffI impI)
  assume "\<exists>out. hw_module_reorder ms = Inr out \<and> mset out = mset (map Some ms)"
  then show "pe_first ms"
    by (auto intro: reorder_perm_imp_pe_first)
next
  assume pf: "pe_first ms"
  have "hw_module_reorder ms = Inr (map Some (final_order ms))"
    using pf by (rule hw_module_reorder_final_order)
  moreover have "mset (map Some (final_order ms)) = mset (map Some ms)"
    using final_order_mset [OF pf] by (metis mset_map)
  ultimately show "\<exists>out. hw_module_reorder ms = Inr out \<and> mset out = mset (map Some ms)"
    by blast
next
  assume "hw_modules_before_reorder c opts env penv alloc arrays = Inr (arrays', generated_modules)"
  then show "pe_first generated_modules"
    by (rule hw_modules_before_reorder_pe_first)
qed

subsection \<open>The sample kernel\<close>

lemma sample_valid:
  "valid_dir sample_vec_cmp sample_env sample_rar_group True"
  "\<not> valid_dir sample_vec_cmp sample_env sample_rar_group False"
  "valid_dir sample_vec_cmp sample_env sample_int_group True"
  by (simp_all add: valid_dir_def is_module_valid_def sample_rar_group_def sample_int_group_def
      sample_vec_cmp_def sample_env_def)

lemma sample_scenario:
  "\<exists>g' n' m3 m2 m1.
      sa_io_module_gen sample_vec_cmp sample_opts sample_env sample_alloc sample_rar_group 0
        True False = Inr (g', n', [m3, m2, m1]) \<and>
      mod_level m3 = 3 \<and> mod_is_buffer m3 \<and> \<not> mod_is_filter m3 \<and>
      mod_level m2 = 2 \<and> \<not> mod_is_buffer m2 \<and> mod_is_filter m2 \<and>
      mod_level m1 = 1 \<and> mod_is_buffer m1 \<and> mod_is_filter m1"
proof (rule three_level_scenario [where
        ?b1.0 = "\<lparr>buf_level = 1, buf_n_lane = 4,
                  buf_tile = Some \<lparr>tile_depth = 3, tile_n = 2, tile_bound = [8, 16]\<rparr>\<rparr>" and
        ?b2.0 = "\<lparr>buf_level = 2, buf_n_lane = 4, buf_tile = None\<rparr>" and
        ?b3.0 = "\<lparr>buf_level = 3, buf_n_lane = 4,
                  buf_tile = Some \<lparr>tile_depth = 1, tile_n = 2, tile_bound = [32, 64]\<rparr>\<rparr>" and
        ?t1.0 = "\<lparr>tile_depth = 3, tile_n = 2, tile_bound = [8, 16]\<rparr>" and
        ?t3.0 = "\<lparr>tile_depth = 1, tile_n = 2, tile_bound = [32, 64]\<rparr>"])
  show "valid_dir sample_vec_cmp sample_env sample_rar_group True"
    by (rule sample_valid(1))
  show "wf_tile \<lparr>tile_depth = 3, tile_n = 2, tile_bound = [8, 16]\<rparr>"
    by (simp add: wf_tile_def)
  show "wf_tile \<lparr>tile_depth = 1, tile_n = 2, tile_bound = [32, 64]\<rparr>"
    by (simp add: wf_tile_def)
  show "opt_two_level_buffer sample_opts"
    by (simp add: sample_opts_def)
qed (simp_all add: sample_rar_group_def sample_buffers_def)

lemma sa_io_module_gen_out_invalid:
  assumes "\<not> valid_dir c env g False"
  shows "sa_io_module_gen c opts env alloc g n inp True =
         sa_io_module_gen c opts env alloc g n inp False"
proof -
  define credit :: int where
    "credit = (if opt_credit_control opts \<and> array_type g = AUTOSA_INT_ARRAY \<and> env_carried env
               then 1 else 0)"
  have "sa_io_module_gen_copy_out c opts env alloc ga credit st True =
        sa_io_module_gen_copy_out c opts env alloc ga credit st False"
    if "sa_io_module_gen_copy_in c opts env alloc g credit n inp = Inr (ga, st)" for ga st
  proof -
    obtain na ins where st: "st = (na, ins)" by (cases st)
    from copy_in_Inr [OF that [unfolded st]] have "valid_dir c env ga False = valid_dir c env g False"
      by auto
    with assms show ?thesis
      by (simp add: sa_io_module_gen_copy_out_def valid_dir_def)
  qed
  then show ?thesis
    unfolding sa_io_module_gen_def Let_def credit_def [symmetric]
    by (cases "sa_io_module_gen_copy_in c opts env alloc g credit n inp") auto
qed

lemma sample_generation:
  "\<not> isl (hw_modules_before_reorder sample_vec_cmp sample_opts (\<lambda>_. sample_env)
            (\<lambda>_. sample_penv) sample_alloc sample_arrays)"
proof -
  from sample_scenario obtain g' n' ms where
    "sa_io_module_gen sample_vec_cmp sample_opts sample_env sample_alloc sample_rar_group 0
        True False = Inr (g', n', ms)"
    by blast
  then have "sa_io_module_gen sample_vec_cmp sample_opts sample_env sample_alloc
        sample_rar_group 0 True True = Inr (g', n', ms)"
    by (simp add: sa_io_module_gen_out_invalid [OF sample_valid(2)])
  then show ?thesis
    by (simp add: hw_modules_before_reorder_def sample_arrays_def split: prod.splits)
qed

text \<open>
  C3. For every module list that the generation builds (the PE module stored at slot 0,
  followed by the I/O and drain modules in generation order), \<^verbatim>\<open>hw_module_reorder\<close>
  returns all copy-in I/O modules, then the PE module, then all copy-out I/O modules,
  then all drain modules, and this is the list \<^verbatim>\<open>generate_hw_modules\<close> keeps.
\<close>

theorem generated_modules_final_order:
  assumes "hw_modules_before_reorder c opts env penv alloc arrays = Inr (arrays', modules)"
  shows "mod_type (hd modules) = PE_MODULE \<and>
         list_all io_or_drain (tl modules) \<and>
         hw_module_reorder modules =
           Inr (map Some (filter is_copy_in (tl modules) @ [hd modules]
                          @ filter is_copy_out (tl modules) @ filter is_drain (tl modules))) \<and>
         generate_hw_modules c opts env penv alloc arrays =
           Inr (arrays', map Some (filter is_copy_in (tl modules) @ [hd modules]
                          @ filter is_copy_out (tl modules) @ filter is_drain (tl modules)))"
proof -
  have pf: "pe_first modules"
    using assms by (rule hw_modules_before_reorder_pe_first)
  then have "mod_type (hd modules) = PE_MODULE" "list_all io_or_drain (tl modules)"
    by (cases modules; simp add: pe_first_def io_or_drain_def [abs_def])+
  moreover have "hw_module_reorder modules = Inr (map Some (final_order modules))"
    using pf by (rule hw_module_reorder_final_order)
  ultimately show ?thesis
    using assms by (simp add: generate_hw_modules_def final_order_def)
qed

theorem generated_modules_final_order_witness:
  "\<exists>arrays' modules.
     hw_modules_before_reorder sample_vec_cmp sample_opts (\<lambda>_. sample_env)
       (\<lambda>_. sample_penv) sample_alloc sample_arrays = Inr (arrays', modules) \<and>
     mod_type (hd modules) = PE_MODULE \<and>
     hw_module_reorder modules =
       Inr (map Some (filter is_copy_in (tl modules) @ [hd modules]
                      @ filter is_copy_out (tl modules) @ filter is_drain (tl modules)))"
proof -
  obtain arrays' modules where
    r: "hw_modules_before_reorder sample_vec_cmp sample_opts (\<lambda>_. sample_env)
       (\<lambda>_. sample_penv) sample_alloc sample_arrays = Inr (arrays', modules)"
    using sample_generation
    by (cases "hw_modules_before_reorder sample_vec_cmp sample_opts (\<lambda>_. sample_env)
       (\<lambda>_. sample_penv) sample_alloc sample_arrays") auto
  from generated_modules_final_order [OF r] r show ?thesis by blast
qed

theorem hw_module_reorder_permutation_iff_witness:
  "\<exists>arrays' modules out.
     hw_modules_before_reorder sample_vec_cmp sample_opts (\<lambda>_. sample_env)
       (\<lambda>_. sample_penv) sample_alloc sample_arrays = Inr (arrays', modules) \<and>
     pe_first modules \<and> hw_module_reorder modules = Inr out \<and>
     mset out = mset (map Some modules)"
proof -
  obtain arrays' modules where
    r: "hw_modules_before_reorder sample_vec_cmp sample_opts (\<lambda>_. sample_env)
       (\<lambda>_. sample_penv) sample_alloc sample_arrays = Inr (arrays', modules)"
    using sample_generation
    by (cases "hw_modules_before_reorder sample_vec_cmp sample_opts (\<lambda>_. sample_env)
       (\<lambda>_. sample_penv) sample_alloc sample_arrays") auto
  note t = hw_module_reorder_permutation_iff [of modules sample_vec_cmp sample_opts
      "\<lambda>_. sample_env" "\<lambda>_. sample_penv" sample_alloc sample_arrays arrays' modules]
  from t r have "pe_first modules" by blast
  with t r show ?thesis by blast
qed

subsection \<open>Levels and filter flags\<close>

lemma generated_fields:
  "generated g rd m \<Longrightarrow> mod_in m = rd \<and> (mod_is_filter m \<longleftrightarrow> mod_level m \<noteq> grp_io_level g)"
  by (auto simp: generated_def filled_def)

text \<open>
  C4 (amended). Whenever \<^verbatim>\<open>sa_io_module_gen\<close> returns, it has generated, for each
  requested direction for which \<^verbatim>\<open>is_module_valid\<close> holds, exactly one module per level
  of the contiguous range from the innermost level (1 for interior I/O, else 2) to the
  outermost level, copy-in from the outermost level down and copy-out from the innermost
  level up, and no other module; the filter flag of a module is false exactly at the
  outermost level. For an I/O group of an external array with interior I/O, three levels,
  two-level buffering and tiles at levels 1 and 3 only, copy-in returns exactly three
  modules, with the buffer flag true at levels 3 and 1, false at level 2, and the filter
  flag false at level 3 only.
\<close>

theorem sa_io_module_gen_chain:
  "(sa_io_module_gen c opts env alloc g n inp outp = Inr (g', n', modules) \<longrightarrow>
      map (\<lambda>module. (mod_in module, mod_level module)) modules =
        (if inp \<and> valid_dir c env g True
         then map (Pair True) (rev [innermost g..grp_io_level g]) else []) @
        (if outp \<and> valid_dir c env g False
         then map (Pair False) [innermost g..grp_io_level g] else []) \<and>
      list_all (\<lambda>module. mod_is_filter module \<longleftrightarrow> mod_level module \<noteq> grp_io_level g)
        modules) \<and>
   (group_type g = AUTOSA_IO_GROUP \<and> array_type g = AUTOSA_EXT_ARRAY \<and>
    io_type g = AUTOSA_INT_IO \<and> grp_io_level g = 3 \<and> io_buffers g = [b1, b2, b3] \<and>
    buf_tile b1 = Some t1 \<and> buf_tile b2 = None \<and> buf_tile b3 = Some t3 \<and>
    buf_level b1 = 1 \<and> buf_level b3 = 3 \<and> buf_n_lane b1 \<noteq> 0 \<and> buf_n_lane b3 \<noteq> 0 \<and>
    wf_tile t1 \<and> wf_tile t3 \<and> opt_two_level_buffer opts \<and> valid_dir c env g True \<longrightarrow>
    (\<exists>g' n' m3 m2 m1.
       sa_io_module_gen c opts env alloc g n True False = Inr (g', n', [m3, m2, m1]) \<and>
       mod_level m3 = 3 \<and> mod_is_buffer m3 \<and> \<not> mod_is_filter m3 \<and>
       mod_level m2 = 2 \<and> \<not> mod_is_buffer m2 \<and> mod_is_filter m2 \<and>
       mod_level m1 = 1 \<and> mod_is_buffer m1 \<and> mod_is_filter m1))"
proof (intro conjI impI)
  assume r: "sa_io_module_gen c opts env alloc g n inp outp = Inr (g', n', modules)"
  from sa_io_module_gen_Inr [OF r] obtain ins outs where
    ms: "modules = ins @ outs" and
    li: "map mod_level ins =
          (if inp \<and> valid_dir c env g True then rev [innermost g..grp_io_level g] else [])" and
    gi: "list_all (generated g True) ins" and
    lo: "map mod_level outs =
          (if outp \<and> valid_dir c env g False then [innermost g..grp_io_level g] else [])" and
    go: "list_all (generated g False) outs"
    by blast
  have "map (\<lambda>module. (mod_in module, mod_level module)) ins = map (Pair True) (map mod_level ins)"
    using gi by (induction ins) (auto dest: generated_fields)
  moreover
  have "map (\<lambda>module. (mod_in module, mod_level module)) outs = map (Pair False) (map mod_level outs)"
    using go by (induction outs) (auto dest: generated_fields)
  ultimately
  show "map (\<lambda>module. (mod_in module, mod_level module)) modules =
        (if inp \<and> valid_dir c env g True
         then map (Pair True) (rev [innermost g..grp_io_level g]) else []) @
        (if outp \<and> valid_dir c env g False
         then map (Pair False) [innermost g..grp_io_level g] else [])"
    unfolding ms li lo by simp
  show "list_all (\<lambda>module. mod_is_filter module \<longleftrightarrow> mod_level module \<noteq> grp_io_level g) modules"
    unfolding ms using gi go by (auto simp: list_all_iff dest: generated_fields)
next
  assume a: "group_type g = AUTOSA_IO_GROUP \<and> array_type g = AUTOSA_EXT_ARRAY \<and>
    io_type g = AUTOSA_INT_IO \<and> grp_io_level g = 3 \<and> io_buffers g = [b1, b2, b3] \<and>
    buf_tile b1 = Some t1 \<and> buf_tile b2 = None \<and> buf_tile b3 = Some t3 \<and>
    buf_level b1 = 1 \<and> buf_level b3 = 3 \<and> buf_n_lane b1 \<noteq> 0 \<and> buf_n_lane b3 \<noteq> 0 \<and>
    wf_tile t1 \<and> wf_tile t3 \<and> opt_two_level_buffer opts \<and> valid_dir c env g True"
  show "\<exists>g' n' m3 m2 m1.
       sa_io_module_gen c opts env alloc g n True False = Inr (g', n', [m3, m2, m1]) \<and>
       mod_level m3 = 3 \<and> mod_is_buffer m3 \<and> \<not> mod_is_filter m3 \<and>
       mod_level m2 = 2 \<and> \<not> mod_is_buffer m2 \<and> mod_is_filter m2 \<and>
       mod_level m1 = 1 \<and> mod_is_buffer m1 \<and> mod_is_filter m1"
    by (rule three_level_scenario [of g b1 b2 b3 t1 t3]) (use a in blast)+
qed

text \<open>
  Without the restriction to an external array the scenario fails. For an internal array
  with interior I/O the
  copy-in classification gives the group no buffer at the innermost level, so the
  module of level 1 has its buffer flag false although a tile is present there.
\<close>

theorem three_level_internal_array_counterexample:
  "opt_two_level_buffer sample_opts \<and>
   valid_dir sample_vec_cmp sample_env sample_int_group True \<and>
   grp_io_level sample_int_group = 3 \<and>
   map (\<lambda>b. buf_tile b \<noteq> None) (io_buffers sample_int_group) = [True, False, True] \<and>
   level_flags (sa_io_module_gen sample_vec_cmp sample_opts sample_env sample_alloc
                  sample_int_group 0 True False)
     = Some [(3, True, False), (2, False, True), (1, False, True)]"
proof -
  have v: "valid_dir sample_vec_cmp sample_env sample_int_group True"
    by (rule sample_valid(3))
  have fb: "find_buffer sample_buffers 3 x = Inr (3, Some (sample_buffers ! 2))"
    "find_buffer sample_buffers 2 x = Inr (1, Some (sample_buffers ! 0))"
    "find_buffer sample_buffers 1 x = Inr (1, Some (sample_buffers ! 0))"
    "find_buffer sample_buffers 0 x = Inr (0, x)" for x
    by (simp_all add: find_buffer_def sample_buffers_def eval_nat_numeral)
  have g: "group_type sample_int_group = AUTOSA_IO_GROUP"
    "array_type sample_int_group = AUTOSA_INT_ARRAY"
    "io_type sample_int_group = AUTOSA_INT_IO" "grp_io_level sample_int_group = 3"
    "io_buffers sample_int_group = sample_buffers"
    by (simp_all add: sample_int_group_def sample_rar_group_def)
  have b: "buf_tile (sample_buffers ! 0) = Some \<lparr>tile_depth = 3, tile_n = 2, tile_bound = [8, 16]\<rparr>"
    "buf_tile (sample_buffers ! 2) = Some \<lparr>tile_depth = 1, tile_n = 2, tile_bound = [32, 64]\<rparr>"
    "buf_n_lane (sample_buffers ! 0) = 4" "buf_n_lane (sample_buffers ! 2) = 4"
    "buf_level (sample_buffers ! 0) = 1" "buf_level (sample_buffers ! 2) = 3"
    by (simp_all add: sample_buffers_def)
  have w: "wf_tile \<lparr>tile_depth = 3, tile_n = 2, tile_bound = [8, 16]\<rparr>"
    "wf_tile \<lparr>tile_depth = 1, tile_n = 2, tile_bound = [32, 64]\<rparr>"
    by (simp_all add: wf_tile_def)
  have "level_flags (sa_io_module_gen sample_vec_cmp sample_opts sample_env sample_alloc
                  sample_int_group 0 True False)
     = Some [(3, True, False), (2, False, True), (1, False, True)]"
    using v unfolding valid_dir_def sa_io_module_gen_def sa_io_module_gen_copy_in_def
      sa_io_module_gen_copy_out_def level_flags_def
    by (simp add: g b fb upto_1_3 io_module_gen_level_def classify_copy_in_def
        generate_io_module_by_type_def generate_default_io_module_def
        generate_default_io_module_schedule_def inter_copy_def intra_copy_def
        coalesce_wf [OF w(1)] coalesce_wf [OF w(2)] sample_opts_def Let_def)
  moreover have "map (\<lambda>b. buf_tile b \<noteq> None) (io_buffers sample_int_group) = [True, False, True]"
    by (simp add: g sample_buffers_def)
  ultimately show ?thesis
    using v g(4) by (simp add: sample_opts_def)
qed

theorem sa_io_module_gen_chain_witness:
  "\<exists>g' n' m3 m2 m1.
     sa_io_module_gen sample_vec_cmp sample_opts sample_env sample_alloc sample_rar_group 0
       True False = Inr (g', n', [m3, m2, m1]) \<and>
     mod_level m3 = 3 \<and> mod_is_buffer m3 \<and> \<not> mod_is_filter m3 \<and>
     mod_level m2 = 2 \<and> \<not> mod_is_buffer m2 \<and> mod_is_filter m2 \<and>
     mod_level m1 = 1 \<and> mod_is_buffer m1 \<and> mod_is_filter m1 \<and>
     map (\<lambda>module. (mod_in module, mod_level module)) [m3, m2, m1]
       = [(True, 3), (True, 2), (True, 1)]"
proof -
  have hyp: "group_type sample_rar_group = AUTOSA_IO_GROUP \<and>
    array_type sample_rar_group = AUTOSA_EXT_ARRAY \<and>
    io_type sample_rar_group = AUTOSA_INT_IO \<and> grp_io_level sample_rar_group = 3 \<and>
    io_buffers sample_rar_group = [sample_buffers ! 0, sample_buffers ! 1, sample_buffers ! 2] \<and>
    buf_tile (sample_buffers ! 0) = Some \<lparr>tile_depth = 3, tile_n = 2, tile_bound = [8, 16]\<rparr> \<and>
    buf_tile (sample_buffers ! 1) = None \<and>
    buf_tile (sample_buffers ! 2) = Some \<lparr>tile_depth = 1, tile_n = 2, tile_bound = [32, 64]\<rparr> \<and>
    buf_level (sample_buffers ! 0) = 1 \<and> buf_level (sample_buffers ! 2) = 3 \<and>
    buf_n_lane (sample_buffers ! 0) \<noteq> 0 \<and> buf_n_lane (sample_buffers ! 2) \<noteq> 0 \<and>
    wf_tile \<lparr>tile_depth = 3, tile_n = 2, tile_bound = [8, 16]\<rparr> \<and>
    wf_tile \<lparr>tile_depth = 1, tile_n = 2, tile_bound = [32, 64]\<rparr> \<and>
    opt_two_level_buffer sample_opts \<and>
    valid_dir sample_vec_cmp sample_env sample_rar_group True"
    using sample_valid(1)
    by (simp add: sample_rar_group_def sample_buffers_def wf_tile_def sample_opts_def)
  have inn: "innermost sample_rar_group = 1" "grp_io_level sample_rar_group = 3"
    by (simp_all add: innermost_def sample_rar_group_def)
  note t = sa_io_module_gen_chain [of sample_vec_cmp sample_opts sample_env sample_alloc
      sample_rar_group 0 True False _ _ _
      "sample_buffers ! 0" "sample_buffers ! 1" "sample_buffers ! 2"
      "\<lparr>tile_depth = 3, tile_n = 2, tile_bound = [8, 16]\<rparr>"
      "\<lparr>tile_depth = 1, tile_n = 2, tile_bound = [32, 64]\<rparr>"]
  from t hyp obtain g' n' m3 m2 m1 where
    r: "sa_io_module_gen sample_vec_cmp sample_opts sample_env sample_alloc sample_rar_group 0
       True False = Inr (g', n', [m3, m2, m1])" and
    f: "mod_level m3 = 3 \<and> mod_is_buffer m3 \<and> \<not> mod_is_filter m3 \<and>
     mod_level m2 = 2 \<and> \<not> mod_is_buffer m2 \<and> mod_is_filter m2 \<and>
     mod_level m1 = 1 \<and> mod_is_buffer m1 \<and> mod_is_filter m1"
    by blast
  from sa_io_module_gen_chain [of sample_vec_cmp sample_opts sample_env sample_alloc
      sample_rar_group 0 True False g' n' "[m3, m2, m1]"] r
  have "map (\<lambda>module. (mod_in module, mod_level module)) [m3, m2, m1] =
        (if True \<and> valid_dir sample_vec_cmp sample_env sample_rar_group True
         then map (Pair True) (rev [innermost sample_rar_group..grp_io_level sample_rar_group])
         else []) @
        (if False \<and> valid_dir sample_vec_cmp sample_env sample_rar_group False
         then map (Pair False) [innermost sample_rar_group..grp_io_level sample_rar_group]
         else [])"
    by blast
  then have m: "map (\<lambda>module. (mod_in module, mod_level module)) [m3, m2, m1]
       = [(True, 3), (True, 2), (True, 1)]"
    using sample_valid(1) by (simp add: inn upto_1_3)
  show ?thesis
    by (rule exI [of _ g'], rule exI [of _ n'], rule exI [of _ m3], rule exI [of _ m2],
        rule exI [of _ m1]) (use r f m in simp)
qed

subsection \<open>The buffer lookup and the null tile\<close>

lemma locate_buffer_no_tile:
  "0 < k \<Longrightarrow> k \<le> length bufs \<Longrightarrow> (\<forall>j<k. buf_tile (bufs ! j) = None) \<Longrightarrow>
   locate_buffer bufs k buf = Inr (0, Some (bufs ! 0))"
proof (induction k arbitrary: buf)
  case 0
  then show ?case by simp
next
  case (Suc k)
  show ?case
  proof (cases k)
    case 0
    with Suc.prems have "0 < length bufs" "buf_tile (bufs ! 0) = None"
      by (auto simp: Suc_le_eq)
    with 0 show ?thesis by simp
  next
    case (Suc k')
    with Suc.prems Suc.IH [of "Some (bufs ! k)"] show ?thesis by simp
  qed
qed

lemma locate_buffer_some_tile:
  "k \<le> length bufs \<Longrightarrow> \<exists>j<k. buf_tile (bufs ! j) \<noteq> None \<Longrightarrow>
   \<exists>i b t. locate_buffer bufs k buf = Inr (i, Some b) \<and> buf_tile b = Some t"
proof (induction k arbitrary: buf)
  case 0
  then show ?case by simp
next
  case (Suc k)
  show ?case
  proof (cases "buf_tile (bufs ! k)")
    case None
    with Suc.prems(2) have "\<exists>j<k. buf_tile (bufs ! j) \<noteq> None"
      by (metis less_Suc_eq)
    with Suc.prems(1) Suc.IH [of "Some (bufs ! k)"] None show ?thesis by simp
  next
    case (Some t)
    with Suc.prems(1) show ?thesis by simp
  qed
qed

lemma coalesce_not_null_tile: "coalesce d lanes t \<noteq> Inl NullTileDeref"
  by (simp add: coalesce_def Let_def)

lemma locate_buffer_not_null_tile: "locate_buffer bufs k buf \<noteq> Inl NullTileDeref"
  by (induction k arbitrary: buf) (simp_all add: Let_def)

lemma find_buffer_not_null_tile: "find_buffer bufs l buf \<noteq> Inl NullTileDeref"
  by (simp add: find_buffer_def locate_buffer_not_null_tile)

lemma inter_copy_not_null_tile: "inter_copy env m buf pos p \<noteq> Inl NullTileDeref"
  using coalesce_not_null_tile
  by (auto simp: inter_copy_def split: option.splits sum.splits)

lemma intra_copy_not_null_tile: "intra_copy env m g cb pos p \<noteq> Inl NullTileDeref"
  using coalesce_not_null_tile find_buffer_not_null_tile
  by (auto simp: intra_copy_def Let_def split: option.splits sum.splits)

text \<open>
  C5. In \<^verbatim>\<open>generate_default_io_module_schedule\<close> the buffer lookup scans the levels
  from \<^verbatim>\<open>io_level\<close> down to 1 for a buffer with a tile, and the cursor is moved to
  \<^verbatim>\<open>buf->tile->depth\<close> before the test \<^verbatim>\<open>if (!buf->tile)\<close>: for a level within the
  group's buffers, the function dereferences a null tile pointer exactly when no level at
  or below it has a tile.
\<close>

theorem default_schedule_null_tile:
  assumes "1 \<le> io_level" and "io_level \<le> int (length (io_buffers g))"
  shows "generate_default_io_module_schedule env module g io_level space_dim is_filter'
           is_buffer read boundary = Inl NullTileDeref
         \<longleftrightarrow> (\<forall>j < nat io_level. buf_tile (io_buffers g ! j) = None)"
proof (cases "\<forall>j < nat io_level. buf_tile (io_buffers g ! j) = None")
  case True
  have "find_buffer (io_buffers g) io_level None = Inr (0, Some (io_buffers g ! 0))"
    using assms True by (simp add: find_buffer_def locate_buffer_no_tile)
  moreover have "buf_tile (io_buffers g ! 0) = None"
    using assms True by simp
  ultimately show ?thesis
    using True by (simp add: generate_default_io_module_schedule_def)
next
  case False
  then have ex: "\<exists>j<nat io_level. buf_tile (io_buffers g ! j) \<noteq> None" by simp
  have le: "nat io_level \<le> length (io_buffers g)" using assms by simp
  have eq: "find_buffer (io_buffers g) io_level None
      = locate_buffer (io_buffers g) (nat io_level) None"
    using assms by (simp add: find_buffer_def)
  from locate_buffer_some_tile [OF le ex, of None] obtain i b t where
    fb: "find_buffer (io_buffers g) io_level None = Inr (i, Some b)" and t: "buf_tile b = Some t"
    unfolding eq by blast
  have "generate_default_io_module_schedule env module g io_level space_dim is_filter'
           is_buffer read boundary \<noteq> Inl NullTileDeref"
    using inter_copy_not_null_tile intra_copy_not_null_tile
    unfolding generate_default_io_module_schedule_def Let_def fb
    by (auto simp: t split: sum.splits if_splits)
  with False show ?thesis by simp
qed

theorem default_schedule_null_tile_witness:
  "generate_default_io_module_schedule sample_env sample_alloc sample_no_tile_group 3 2
     False False True False = Inl NullTileDeref"
proof -
  have "1 \<le> (3::int)" "3 \<le> int (length (io_buffers sample_no_tile_group))"
    "\<forall>j < nat 3. buf_tile (io_buffers sample_no_tile_group ! j) = None"
    by (simp_all add: sample_no_tile_group_def sample_rar_group_def less_Suc_eq
        eval_nat_numeral)
  with default_schedule_null_tile [of 3 sample_no_tile_group sample_env sample_alloc 2
      False False True False]
  show ?thesis by blast
qed

subsection \<open>Coalescing\<close>

lemma c_int_id: "- (2 ^ 31) \<le> x \<Longrightarrow> x < 2 ^ 31 \<Longrightarrow> c_int x = x"
  by (simp add: c_int_def)

lemma inter_copy_tile:
  assumes "buf_tile buf = Some t" and "wf_tile t" and "buf_n_lane buf \<noteq> 0"
  shows "inter_copy env m buf pos p =
     Inr (m\<lparr>data_pack_inter := buf_n_lane buf, data_pack_intra := buf_n_lane buf\<rparr>,
          StmtTile (p @ [Txt ''.'', Num (buf_n_lane buf), Txt ''.'',
             Num (if c_int ((tile_bound t ! nat (tile_n t - 1)) sdiv buf_n_lane buf) \<le> 1
                  then - 1 else sched_depth env pos + tile_n t - 1),
             Txt ''.'', Num (c_int ((tile_bound t ! nat (tile_n t - 1)) sdiv buf_n_lane buf))]))"
  using assms by (simp add: inter_copy_def coalesce_wf)

lemma locate_buffer_in_range:
  "k \<le> length bufs \<Longrightarrow>
   \<exists>j b. locate_buffer bufs k (Some c) = Inr (j, Some b) \<and> (b = c \<or> b \<in> set bufs)"
proof (induction k arbitrary: c)
  case 0
  then show ?case by simp
next
  case (Suc k)
  from Suc.prems have k: "k < length bufs" "k \<le> length bufs" by simp_all
  show ?case
  proof (cases "buf_tile (bufs ! k)")
    case None
    from Suc.IH [OF k(2), of "bufs ! k"] obtain j b where
      "locate_buffer bufs k (Some (bufs ! k)) = Inr (j, Some b)" "b = bufs ! k \<or> b \<in> set bufs"
      by blast
    with k None show ?thesis by auto
  next
    case (Some t)
    with k show ?thesis by simp
  qed
qed

lemma find_buffer_in_range:
  assumes "start \<le> int (length bufs)"
  shows "\<exists>j b. find_buffer bufs start (Some c) = Inr (j, Some b) \<and> (b = c \<or> b \<in> set bufs)"
proof (cases "start < 1")
  case True
  then show ?thesis by (simp add: find_buffer_def)
next
  case False
  with assms have "nat start \<le> length bufs" by simp
  from locate_buffer_in_range [OF this, of c] False show ?thesis
    by (simp add: find_buffer_def)
qed

lemma intra_copy_returns:
  assumes "buf_level cur - 1 \<le> int (length (io_buffers g))"
    and "\<forall>b\<in>set (io_buffers g). \<forall>t. buf_tile b = Some t \<longrightarrow> wf_tile t \<and> buf_n_lane b \<noteq> 0"
    and "\<forall>t. buf_tile cur = Some t \<longrightarrow> wf_tile t \<and> buf_n_lane cur \<noteq> 0"
  shows "\<exists>m' s. intra_copy env m g cur pos p = Inr (m', s)"
proof -
  from find_buffer_in_range [OF assms(1), of cur] obtain j b where
    fb: "find_buffer (io_buffers g) (buf_level cur - 1) (Some cur) = Inr (j, Some b)"
    and b: "b = cur \<or> b \<in> set (io_buffers g)"
    by blast
  from b assms(2,3) have wf: "\<forall>t. buf_tile b = Some t \<longrightarrow> wf_tile t \<and> buf_n_lane b \<noteq> 0"
    by blast
  show ?thesis
  proof (cases "buf_tile b")
    case None
    then show ?thesis by (simp add: intra_copy_def fb Let_def)
  next
    case (Some t)
    with wf have "wf_tile t" "buf_n_lane b \<noteq> 0" by simp_all
    then show ?thesis by (simp add: intra_copy_def fb Let_def Some coalesce_wf)
  qed
qed

text \<open>
  C6. Let the buffer lookup of \<^verbatim>\<open>generate_io_module_inter_trans\<close> and
  \<^verbatim>\<open>generate_default_io_module_schedule\<close> find a buffer with a tile, and let the extent
  of the innermost tile dimension divided by the packing width of the buffer fit a C
  \<^verbatim>\<open>int\<close>. Then \<^verbatim>\<open>generate_io_module_inter_trans\<close> grafts exactly one statement, a
  tile-level transfer whose name ends in the coalesce depth and the coalesce bound; every
  result of \<^verbatim>\<open>generate_default_io_module_schedule\<close> starts with such a statement, and
  the function returns when the module has no buffer at this level or when every tile of
  the group has an innermost dimension and a packing width other than zero. In both, the
  coalesce bound is the quotient, and the coalesce depth is \<open>-1\<close> whenever the bound is
  at most 1 and the depth of the innermost tile loop otherwise. With packing width 4 and
  innermost extent 16 the bound is 4 and the depth is not negative (the schedule depth of
  a cursor is not negative); with innermost extent 4 the bound is 1 and the depth is \<open>-1\<close>.
\<close>

theorem transfer_stmt_coalesce_bound_and_depth:
  assumes "find_buffer (io_buffers g) io_level None = Inr (i, Some buf)"
    and "buf_tile buf = Some t" and "wf_tile t" and "buf_n_lane buf \<noteq> 0"
    and "extent = tile_bound t ! nat (tile_n t - 1)"
    and "- (2 ^ 31) \<le> extent sdiv buf_n_lane buf" and "extent sdiv buf_n_lane buf < 2 ^ 31"
    and "depth = sched_depth env (IoMark io_level)"
    and "d_inter = sched_depth env (IoMarkChild (buf_level buf))"
    and "d_default = sched_depth env (AtDepth (tile_depth t))"
  shows "\<exists>coalesce_bound depth_inter depth_default.
     coalesce_bound = extent sdiv buf_n_lane buf \<and>
     (coalesce_bound \<le> 1 \<longrightarrow> depth_inter = - 1 \<and> depth_default = - 1) \<and>
     (1 < coalesce_bound \<longrightarrow>
        depth_inter = d_inter + tile_n t - 1 \<and> depth_default = d_default + tile_n t - 1) \<and>
     (buf_n_lane buf = 4 \<and> extent = 16 \<longrightarrow>
        coalesce_bound = 4 \<and> (0 \<le> d_inter \<longrightarrow> 0 \<le> depth_inter) \<and>
        (0 \<le> d_default \<longrightarrow> 0 \<le> depth_default)) \<and>
     (buf_n_lane buf = 4 \<and> extent = 4 \<longrightarrow>
        coalesce_bound = 1 \<and> depth_inter = - 1 \<and> depth_default = - 1) \<and>
     (\<not> to_mem module \<longrightarrow>
        generate_io_module_inter_trans env module g io_level space_dim read boundary =
          Inr (module\<lparr>data_pack_inter := buf_n_lane buf, data_pack_intra := buf_n_lane buf\<rparr>,
               [StmtTile (trans_stmt_prefix read (to_mem module) boundary (fifo_suffix env)
                            True (i = io_level) depth space_dim io_level (buf_n_lane buf)
                          @ [Txt ''.'', Num (buf_n_lane buf), Txt ''.'', Num depth_inter,
                             Txt ''.'', Num coalesce_bound])])) \<and>
     (\<forall>module' stmts.
        generate_default_io_module_schedule env module g io_level space_dim is_filter'
            is_buffer read boundary = Inr (module', stmts) \<longrightarrow>
        (\<exists>rest. stmts =
           StmtTile (trans_stmt_prefix read (to_mem module) boundary (fifo_suffix env)
                       is_filter' (is_buffer \<and> i = io_level) depth space_dim io_level
                       (buf_n_lane buf)
                     @ [Txt ''.'', Num (buf_n_lane buf), Txt ''.'', Num depth_default,
                        Txt ''.'', Num coalesce_bound]) # rest)) \<and>
     (\<not> (is_buffer \<and> i = io_level) \<longrightarrow>
        (\<exists>module'.
           generate_default_io_module_schedule env module g io_level space_dim is_filter'
               is_buffer read boundary =
             Inr (module',
                  [StmtTile (trans_stmt_prefix read (to_mem module) boundary (fifo_suffix env)
                               is_filter' False depth space_dim io_level (buf_n_lane buf)
                             @ [Txt ''.'', Num (buf_n_lane buf), Txt ''.'', Num depth_default,
                                Txt ''.'', Num coalesce_bound])]))) \<and>
     (buf_level buf - 1 \<le> int (length (io_buffers g)) \<and>
      (\<forall>b\<in>set (io_buffers g). \<forall>t'. buf_tile b = Some t' \<longrightarrow> wf_tile t' \<and> buf_n_lane b \<noteq> 0) \<longrightarrow>
        (\<exists>module' rest.
           generate_default_io_module_schedule env module g io_level space_dim is_filter'
               is_buffer read boundary =
             Inr (module',
                  StmtTile (trans_stmt_prefix read (to_mem module) boundary (fifo_suffix env)
                              is_filter' (is_buffer \<and> i = io_level) depth space_dim io_level
                              (buf_n_lane buf)
                            @ [Txt ''.'', Num (buf_n_lane buf), Txt ''.'', Num depth_default,
                               Txt ''.'', Num coalesce_bound]) # rest)))"
proof -
  define q where "q = extent sdiv buf_n_lane buf"
  have cq: "c_int ((tile_bound t ! nat (tile_n t - 1)) sdiv buf_n_lane buf) = q"
    using assms(5-7) by (simp add: q_def c_int_id)
  note ic = inter_copy_tile [OF assms(2-4), unfolded cq]
  have n: "1 \<le> tile_n t" using assms(3) by (simp add: wf_tile_def)
  have s16: "(16::int) sdiv 4 = 4" and s4: "(4::int) sdiv 4 = 1"
    by (simp_all add: signed_divide_int_def)
  have it: "\<not> to_mem module \<Longrightarrow>
      generate_io_module_inter_trans env module g io_level space_dim read boundary =
        Inr (module\<lparr>data_pack_inter := buf_n_lane buf, data_pack_intra := buf_n_lane buf\<rparr>,
             [StmtTile (trans_stmt_prefix read (to_mem module) boundary (fifo_suffix env)
                          True (i = io_level) depth space_dim io_level (buf_n_lane buf)
                        @ [Txt ''.'', Num (buf_n_lane buf), Txt ''.'',
                           Num (if q \<le> 1 then - 1 else d_inter + tile_n t - 1),
                           Txt ''.'', Num q])])"
    by (simp add: generate_io_module_inter_trans_def Let_def assms(1) assms(8,9) ic)
  have df: "generate_default_io_module_schedule env module g io_level space_dim is_filter'
            is_buffer read boundary = Inr (module', stmts) \<Longrightarrow>
        \<exists>rest. stmts =
           StmtTile (trans_stmt_prefix read (to_mem module) boundary (fifo_suffix env)
                       is_filter' (is_buffer \<and> i = io_level) depth space_dim io_level
                       (buf_n_lane buf)
                     @ [Txt ''.'', Num (buf_n_lane buf), Txt ''.'',
                        Num (if q \<le> 1 then - 1 else d_default + tile_n t - 1),
                        Txt ''.'', Num q]) # rest" for module' stmts
    unfolding generate_default_io_module_schedule_def Let_def
    by (auto simp: assms(1,2,8,10) ic split: sum.splits if_splits)
  have dn: "\<not> (is_buffer \<and> i = io_level) \<Longrightarrow>
        \<exists>module'.
           generate_default_io_module_schedule env module g io_level space_dim is_filter'
               is_buffer read boundary =
             Inr (module',
                  [StmtTile (trans_stmt_prefix read (to_mem module) boundary (fifo_suffix env)
                               is_filter' False depth space_dim io_level (buf_n_lane buf)
                             @ [Txt ''.'', Num (buf_n_lane buf), Txt ''.'',
                                Num (if q \<le> 1 then - 1 else d_default + tile_n t - 1),
                                Txt ''.'', Num q])])"
    unfolding generate_default_io_module_schedule_def Let_def
    by (auto simp: assms(1,2,8,10) ic)
  have dt: "\<exists>module' rest.
           generate_default_io_module_schedule env module g io_level space_dim is_filter'
               is_buffer read boundary =
             Inr (module',
                  StmtTile (trans_stmt_prefix read (to_mem module) boundary (fifo_suffix env)
                              is_filter' (is_buffer \<and> i = io_level) depth space_dim io_level
                              (buf_n_lane buf)
                            @ [Txt ''.'', Num (buf_n_lane buf), Txt ''.'',
                               Num (if q \<le> 1 then - 1 else d_default + tile_n t - 1),
                               Txt ''.'', Num q]) # rest)"
    if r: "buf_level buf - 1 \<le> int (length (io_buffers g))"
      and w: "\<forall>b\<in>set (io_buffers g). \<forall>t'. buf_tile b = Some t' \<longrightarrow> wf_tile t' \<and> buf_n_lane b \<noteq> 0"
  proof -
    have "\<forall>t'. buf_tile buf = Some t' \<longrightarrow> wf_tile t' \<and> buf_n_lane buf \<noteq> 0"
      using assms(2-4) by simp
    from intra_copy_returns [OF r w this] obtain m' s' where
      "intra_copy env
         (module\<lparr>data_pack_inter := buf_n_lane buf, data_pack_intra := buf_n_lane buf\<rparr>) g buf
         (AtDepth (tile_depth t))
         (local_stmt_prefix read (fifo_suffix env) True (buf_n_lane buf)) = Inr (m', s')"
      by blast
    then show ?thesis
      unfolding generate_default_io_module_schedule_def Let_def
      by (auto simp: assms(1,2,8,10) ic)
  qed
  show ?thesis
    apply (rule exI [of _ q])
    apply (rule exI [of _ "if q \<le> 1 then - 1 else d_inter + tile_n t - 1"])
    apply (rule exI [of _ "if q \<le> 1 then - 1 else d_default + tile_n t - 1"])
    apply (intro conjI)
    subgoal by (simp add: q_def)
    subgoal by simp
    subgoal by simp
    subgoal using n s16 by (auto simp: q_def)
    subgoal using s4 by (auto simp: q_def)
    subgoal using it by blast
    subgoal using df by blast
    subgoal using dn by blast
    subgoal using dt by blast
    done
qed

theorem transfer_stmt_coalesce_bound_and_depth_witness:
  "generate_io_module_inter_trans sample_env sample_alloc sample_rar_group 1 2 True False =
     Inr (sample_alloc\<lparr>data_pack_inter := 4, data_pack_intra := 4\<rparr>,
          [StmtTile (trans_stmt_prefix True False False ''fifo_A'' True True 2 2 1 4
                     @ [Txt ''.'', Num 4, Txt ''.'', Num 3, Txt ''.'', Num 4])]) \<and>
   (\<exists>module'.
      generate_default_io_module_schedule sample_env sample_alloc sample_rar_group 1 2 True
          False True False =
        Inr (module',
             [StmtTile (trans_stmt_prefix True False False ''fifo_A'' True False 2 2 1 4
                        @ [Txt ''.'', Num 4, Txt ''.'', Num 3, Txt ''.'', Num 4])])) \<and>
   (\<exists>module' rest.
      generate_default_io_module_schedule sample_env sample_alloc sample_rar_group 1 2 True
          True True False =
        Inr (module',
             StmtTile (trans_stmt_prefix True False False ''fifo_A'' True True 2 2 1 4
                       @ [Txt ''.'', Num 4, Txt ''.'', Num 3, Txt ''.'', Num 4]) # rest))"
proof -
  have h: "find_buffer (io_buffers sample_rar_group) 1 None = Inr (1, Some (sample_buffers ! 0))"
    "buf_tile (sample_buffers ! 0) = Some \<lparr>tile_depth = 3, tile_n = 2, tile_bound = [8, 16]\<rparr>"
    "wf_tile \<lparr>tile_depth = 3, tile_n = 2, tile_bound = [8, 16]\<rparr>"
    "buf_n_lane (sample_buffers ! 0) \<noteq> 0"
    "16 = tile_bound \<lparr>tile_depth = 3, tile_n = 2, tile_bound = [8, 16]\<rparr>
            ! nat (tile_n \<lparr>tile_depth = 3, tile_n = 2, tile_bound = [8, 16]\<rparr> - 1)"
    "- (2 ^ 31) \<le> (16::int) sdiv buf_n_lane (sample_buffers ! 0)"
    "(16::int) sdiv buf_n_lane (sample_buffers ! 0) < 2 ^ 31"
    "2 = sched_depth sample_env (IoMark 1)"
    "2 = sched_depth sample_env (IoMarkChild (buf_level (sample_buffers ! 0)))"
    "2 = sched_depth sample_env
           (AtDepth (tile_depth \<lparr>tile_depth = 3, tile_n = 2, tile_bound = [8, 16]\<rparr>))"
    by (simp_all add: sample_rar_group_def sample_buffers_def sample_env_def find_buffer_def
        wf_tile_def signed_divide_int_def)
  have l: "buf_n_lane (sample_buffers ! 0) = 4" "fifo_suffix sample_env = ''fifo_A''"
    "\<not> to_mem sample_alloc"
    by (simp_all add: sample_buffers_def sample_env_def sample_alloc_def)
  have w: "buf_level (sample_buffers ! 0) - 1 \<le> int (length (io_buffers sample_rar_group))"
    "\<forall>b\<in>set (io_buffers sample_rar_group). \<forall>t'. buf_tile b = Some t' \<longrightarrow>
       wf_tile t' \<and> buf_n_lane b \<noteq> 0"
    by (simp_all add: sample_rar_group_def sample_buffers_def wf_tile_def)
  from transfer_stmt_coalesce_bound_and_depth [OF h, where module = sample_alloc
      and space_dim = 2 and read = True and boundary = False and is_filter' = True
      and is_buffer = False]
    transfer_stmt_coalesce_bound_and_depth [OF h, where module = sample_alloc
      and space_dim = 2 and read = True and boundary = False and is_filter' = True
      and is_buffer = True] l w
  show ?thesis by auto
qed

text \<open>
  Outside the range of \<^verbatim>\<open>int\<close> the coalesce bound is not the quotient: with packing
  width 1 and innermost extent 2147483648 the \<^verbatim>\<open>long\<close> quotient 2147483648 is stored in
  the \<^verbatim>\<open>int\<close> variable \<^verbatim>\<open>coalesce_bound\<close> as \<open>-2147483648\<close>, and the coalesce depth
  is \<open>-1\<close>.
\<close>

theorem coalesce_bound_overflow_counterexample:
  "generate_io_module_inter_trans sample_env sample_alloc sample_wide_group 1 2 True False =
     Inr (sample_alloc\<lparr>data_pack_inter := 1, data_pack_intra := 1\<rparr>,
          [StmtTile (trans_stmt_prefix True False False ''fifo_A'' True True 2 2 1 1
                     @ [Txt ''.'', Num 1, Txt ''.'', Num (- 1),
                        Txt ''.'', Num (- 2147483648)])]) \<and>
   - 2147483648 \<noteq> (2147483648::int) sdiv 1"
  by (simp add: generate_io_module_inter_trans_def sample_wide_group_def sample_env_def
      sample_alloc_def find_buffer_def inter_copy_def coalesce_def c_int_def Let_def
      signed_divide_int_def)

subsection \<open>PE dummy modules and direction flags\<close>

lemma pe_dummy_io_groups_eq:
  "pe_dummy_io_groups gs = map group_id (filter (\<lambda>g. pe_io_dir g = IO_INOUT) gs)"
  by (induction gs) simp_all

lemma pe_dummy_arrays_eq:
  "pe_dummy_arrays arrays =
     concat (map (\<lambda>a. if la_array_type a = AUTOSA_INT_ARRAY then []
                       else map group_id (filter (\<lambda>g. pe_io_dir g = IO_INOUT) (la_io_groups a)))
               arrays)"
  by (induction arrays) (simp_all add: pe_dummy_io_groups_eq)

text \<open>
  C7 (amended). After the copy statements of the PE module have been grafted for all
  groups, a PE dummy module is generated for every I/O group of an array that is not an
  internal array (\<^verbatim>\<open>AUTOSA_INT_ARRAY\<close>) whose \<^verbatim>\<open>pe_io_dir\<close> is \<^verbatim>\<open>IO_INOUT\<close>, in
  the order of the arrays and groups, and for no other group.
\<close>

theorem pe_dummy_modules_external_inout:
  assumes "sa_pe_module_gen penv alloc arrays = (arrays', module)"
  shows "pe_dummy_modules module =
     concat (map (\<lambda>a. if la_array_type a = AUTOSA_INT_ARRAY then []
                       else map group_id (filter (\<lambda>g. pe_io_dir g = IO_INOUT) (la_io_groups a)))
               arrays')"
  using assms
  by (auto simp: sa_pe_module_gen_def Let_def pe_dummy_arrays_eq split: prod.splits)

lemma sample_pe_gen:
  "sa_pe_module_gen (\<lambda>_. sample_penv) sample_alloc
     [\<lparr>la_array_type = AUTOSA_EXT_ARRAY,
       la_io_groups = [sample_rar_group\<lparr>array_io_dir := IO_IN\<rparr>],
       la_drain_group = None, la_n_io_group_refs = 1\<rparr>] =
   ([\<lparr>la_array_type = AUTOSA_EXT_ARRAY,
       la_io_groups = [sample_rar_group\<lparr>array_io_dir := IO_IN, pe_io_dir := IO_INOUT\<rparr>],
       la_drain_group = None, la_n_io_group_refs = 1\<rparr>],
    sample_alloc\<lparr>mod_io_groups := [(''A'', AUTOSA_IO_GROUP, 0)], mod_type := PE_MODULE,
      mod_name := [Txt ''PE''], pe_dummy_modules := [(''A'', AUTOSA_IO_GROUP, 0)]\<rparr>)"
  by (simp add: sa_pe_module_gen_def sample_rar_group_def sample_penv_def sample_alloc_def
      add_pe_ext_io_copies_def add_pe_ext_io_copies_stmt_def group_id_def Let_def)

theorem pe_dummy_modules_external_inout_witness:
  "pe_dummy_modules (snd (sa_pe_module_gen (\<lambda>_. sample_penv) sample_alloc
     [\<lparr>la_array_type = AUTOSA_EXT_ARRAY,
       la_io_groups = [sample_rar_group\<lparr>array_io_dir := IO_IN\<rparr>],
       la_drain_group = None, la_n_io_group_refs = 1\<rparr>])) = [(''A'', AUTOSA_IO_GROUP, 0)]"
  using pe_dummy_modules_external_inout [OF sample_pe_gen]
  by (simp add: sample_pe_gen)

text \<open>
  The groups of an internal array are skipped by the loop that generates the dummy
  modules, whatever their \<^verbatim>\<open>pe_io_dir\<close>: here the flag is \<^verbatim>\<open>IO_INOUT\<close> and no dummy
  module is generated.
\<close>

theorem internal_array_no_dummy_counterexample:
  "map pe_io_dir (concat (map la_io_groups (fst (sa_pe_module_gen (\<lambda>_. sample_penv) sample_alloc
     [\<lparr>la_array_type = AUTOSA_INT_ARRAY,
       la_io_groups = [sample_int_group\<lparr>array_io_dir := IO_INOUT\<rparr>],
       la_drain_group = None, la_n_io_group_refs = 2\<rparr>])))) = [IO_INOUT] \<and>
   pe_dummy_modules (snd (sa_pe_module_gen (\<lambda>_. sample_penv) sample_alloc
     [\<lparr>la_array_type = AUTOSA_INT_ARRAY,
       la_io_groups = [sample_int_group\<lparr>array_io_dir := IO_INOUT\<rparr>],
       la_drain_group = None, la_n_io_group_refs = 2\<rparr>])) = []"
  by (simp add: sa_pe_module_gen_def sample_int_group_def sample_rar_group_def sample_penv_def
      add_pe_int_io_copies_def Let_def)

text \<open>
  C8. The update \<^verbatim>\<open>pe_io_dir = (pe_io_dir == IO_OUT) ? IO_INOUT : IO_IN\<close> is applied
  once per reference and leaf. For a group with two references, the copies are grafted for
  write twice (\<^verbatim>\<open>IO_OUT\<close>), then for read twice: the first read gives \<^verbatim>\<open>IO_INOUT\<close>,
  the second one resets the flag to \<^verbatim>\<open>IO_IN\<close>, and no dummy module is generated.
\<close>

theorem pe_io_dir_reset_by_second_read:
  "map pe_io_dir (concat (map la_io_groups (fst (sa_pe_module_gen (\<lambda>_. sample_penv) sample_alloc
     [\<lparr>la_array_type = AUTOSA_EXT_ARRAY,
       la_io_groups = [sample_two_ref_group],
       la_drain_group = None, la_n_io_group_refs = 1\<rparr>])))) = [IO_IN] \<and>
   pe_dummy_modules (snd (sa_pe_module_gen (\<lambda>_. sample_penv) sample_alloc
     [\<lparr>la_array_type = AUTOSA_EXT_ARRAY,
       la_io_groups = [sample_two_ref_group],
       la_drain_group = None, la_n_io_group_refs = 1\<rparr>])) = []"
  by (simp add: sa_pe_module_gen_def sample_two_ref_group_def sample_rar_group_def
      sample_penv_def add_pe_ext_io_copies_def add_pe_ext_io_copies_stmt_def Let_def
      upt_rec)

subsection \<open>The overlap analysis\<close>

text \<open>The function has no path that returns \<^verbatim>\<open>isl_bool_error\<close>.\<close>

lemma internal_group_in_out_overlap_never_error:
  "internal_group_in_out_overlap stmt arr w prefix lt deps context access tagged read
     \<noteq> isl_bool_error"
  by (simp add: internal_group_in_out_overlap_def Let_def)

text \<open>
  C2. When the relation \<^verbatim>\<open>lt\<close> is null, the emptiness test of \<^verbatim>\<open>overlap\<close> is
  \<^verbatim>\<open>isl_bool_error\<close>, \<^verbatim>\<open>external\<close> is freed, the last emptiness test is
  \<^verbatim>\<open>isl_bool_error\<close> as well, and the final \<^verbatim>\<open>if (empty)\<close> takes the error value for
  true: the function returns \<^verbatim>\<open>isl_bool_true\<close>.
\<close>

theorem internal_group_in_out_overlap_null_is_true:
  "isl_union_map_is_empty
     (isl_union_map_intersect
        (isl_union_map_apply_range
           (isl_union_map_apply_range (Some {((0::nat, 0::nat), 0::nat)}) None)
           (isl_union_map_reverse (Some {((0::nat, 0::nat), 0::nat)})))
        (Some {((0, 0), (0, 0))})) = isl_bool_error \<and>
   internal_group_in_out_overlap (\<lambda>d::nat. d) (\<lambda>e::nat. e) sample_wrapped_reference_to_access
     (Some {((0::nat, 0::nat), 0::nat)}) None (Some {((0, 0), (0, 0))}) (Some True)
     (Some {(0, 0)}) (Some {((0, 0), 0)}) True = isl_bool_true"
  by (simp add: internal_group_in_out_overlap_def Let_def isl_union_map_is_empty_def
      isl_union_map_intersect_def isl_union_map_apply_range_def isl_union_map_free_def)

subsection \<open>Constraints of the four schedule filters\<close>












text \<open>
  With more names than band members and no bound on the parameters,
  \<^verbatim>\<open>set_schedule_ge\<close> and \<^verbatim>\<open>set_schedule_le\<close> bound the leading parameter by zero from
  one side only: for a band with one member and the two names \<open>p0\<close>, \<open>p1\<close>, the element
  scheduled at 0 belongs to the result of \<^verbatim>\<open>set_schedule_ge\<close> at a valuation with
  \<open>p0 = -1\<close>, and to the result of \<^verbatim>\<open>set_schedule_le\<close> at a valuation with \<open>p0 = 1\<close>.
  No call in \<^verbatim>\<open>autosa_codegen.cpp\<close> passes such a list.
\<close>

lemma set_schedule_ge_le_leading_parameters:
  "(case set_schedule_ge (Some sample_band) [''p0'', ''p1''] of
      None \<Rightarrow> False | Some uset \<Rightarrow> uset sample_valuation_neg 0) \<and>
   sample_valuation_neg ''p0'' \<noteq> 0 \<and>
   (case set_schedule_le (Some sample_band) [''p0'', ''p1''] of
      None \<Rightarrow> False | Some uset \<Rightarrow> uset sample_valuation_pos 0) \<and>
   sample_valuation_pos ''p0'' \<noteq> 0"
  by (simp add: set_schedule_ge_def set_schedule_le_def sample_band_def
      sample_valuation_neg_def sample_valuation_pos_def
      isl_multi_aff_zero_def isl_multi_union_pw_aff_multi_aff_on_domain_def
      isl_multi_union_pw_aff_range_product_def isl_multi_union_pw_aff_sub_def
      isl_multi_union_pw_aff_nonneg_union_set_def parameter_vector_def Let_def)

end
